theory Spec2Isabelle
  imports Main "HOL-Library.Word" "HOL-Library.Multiset"
begin

section \<open>MEMD: the data model of memd.h\<close>

text \<open>
  \<^verbatim>\<open>size_t\<close> is a 64-bit unsigned word (an LP64 target), \<^verbatim>\<open>uint32_t\<close> a 32-bit one;
  both wrap around. A \<^verbatim>\<open>const char *\<close> to a string literal is the string itself. The
  address of a block is the value of its pointer cast to \<^verbatim>\<open>size_t\<close>; \<open>0\<close> is \<^verbatim>\<open>NULL\<close>.
\<close>

type_synonym size_t = "64 word"
type_synonym uint32_t = "32 word"

definition MEMD_MAX_ALLOCATIONS :: nat where
  "MEMD_MAX_ALLOCATIONS = 1000"

definition MEMD_MAX_WARNINGS :: int where
  "MEMD_MAX_WARNINGS = 1000"

text \<open>\<^verbatim>\<open>MEMD_Mem\<close>: fields \<^verbatim>\<open>address\<close>, \<^verbatim>\<open>size\<close>, \<^verbatim>\<open>line\<close>, \<^verbatim>\<open>file\<close>.\<close>

record MEMD_Mem =
  address :: size_t
  msize :: size_t
  mline :: uint32_t
  mfile :: string

text \<open>\<^verbatim>\<open>MEMD_Warning\<close>: fields \<^verbatim>\<open>message\<close> (a \<^verbatim>\<open>char[128]\<close>), \<^verbatim>\<open>line\<close>, \<^verbatim>\<open>file\<close>.\<close>

record MEMD_Warning =
  message :: string
  wline :: uint32_t
  wfile :: string

text \<open>
  The global \<^verbatim>\<open>MEMD_Data\<close>. The two arrays are lists; in every state the program can
  be in they have \<open>MEMD_MAX_ALLOCATIONS\<close> and \<open>MEMD_MAX_WARNINGS\<close> elements.
\<close>

record MEMD_Data =
  mem :: "MEMD_Mem list"
  total_allocated_size :: size_t
  total_free_size :: size_t
  warnings :: "MEMD_Warning list"
  warning_count :: int

text \<open>Static storage is zero-initialised: every slot is empty, both totals are 0, no warning.\<close>

definition zero_Mem :: MEMD_Mem where
  "zero_Mem = \<lparr>address = 0, msize = 0, mline = 0, mfile = []\<rparr>"

definition zero_Warning :: MEMD_Warning where
  "zero_Warning = \<lparr>message = [], wline = 0, wfile = []\<rparr>"

definition MEMD_Data_init :: MEMD_Data where
  "MEMD_Data_init =
     \<lparr>mem = replicate MEMD_MAX_ALLOCATIONS zero_Mem,
      total_allocated_size = 0,
      total_free_size = 0,
      warnings = replicate (nat MEMD_MAX_WARNINGS) zero_Warning,
      warning_count = 0\<rparr>"

text \<open>What the C types guarantee of \<^verbatim>\<open>MEMD_Data\<close>: the sizes of the two arrays.\<close>

definition wf_Data :: "MEMD_Data \<Rightarrow> bool" where
  "wf_Data d =
     (length (mem d) = MEMD_MAX_ALLOCATIONS \<and>
      length (warnings d) = nat MEMD_MAX_WARNINGS \<and>
      0 \<le> warning_count d \<and> warning_count d \<le> MEMD_MAX_WARNINGS)"

section \<open>Warning log\<close>

text \<open>
  The macro \<^verbatim>\<open>WARN(msg, line, file)\<close>: below the capacity it fills
  \<^verbatim>\<open>warnings[warning_count++]\<close>; \<^verbatim>\<open>snprintf\<close> into \<^verbatim>\<open>char message[128]\<close> keeps at most
  127 characters. At capacity it does nothing.
\<close>

definition WARN :: "string \<Rightarrow> uint32_t \<Rightarrow> string \<Rightarrow> MEMD_Data \<Rightarrow> MEMD_Data" where
  "WARN msg ln fl d =
     (if warning_count d < MEMD_MAX_WARNINGS
      then d\<lparr>warnings := (warnings d)
                 [nat (warning_count d) := \<lparr>message = take 127 msg, wline = ln, wfile = fl\<rparr>],
              warning_count := warning_count d + 1\<rparr>
      else d)"

section \<open>Allocation registry\<close>

text \<open>
  \<^verbatim>\<open>_find_by_address\<close>: the loop \<^verbatim>\<open>for (i = 0; i < MEMD_MAX_ALLOCATIONS; i++)\<close>, from
  index \<open>i\<close> on. The pointer it returns is the index of the slot; \<^verbatim>\<open>NULL\<close> is \<open>None\<close>.
\<close>

function find_from :: "MEMD_Mem list \<Rightarrow> size_t \<Rightarrow> nat \<Rightarrow> nat option" where
  "find_from m a i =
     (if i < MEMD_MAX_ALLOCATIONS
      then (if address (m ! i) = a then Some i else find_from m a (i + 1))
      else None)"
  by pat_completeness auto
termination
  by (relation "measure (\<lambda>(m, a, i). MEMD_MAX_ALLOCATIONS - i)") auto

declare find_from.simps [simp del]

definition find_by_address :: "MEMD_Data \<Rightarrow> size_t \<Rightarrow> nat option" where
  "find_by_address d a = find_from (mem d) a 0"

text \<open>\<^verbatim>\<open>_insert\<close>.\<close>

definition insert_alloc ::
  "size_t \<Rightarrow> size_t \<Rightarrow> uint32_t \<Rightarrow> string \<Rightarrow> MEMD_Data \<Rightarrow> MEMD_Data" where
  "insert_alloc a sz ln fl d =
     (if a = 0 then WARN ''Memory allocation failed'' ln fl d
      else (case find_by_address d 0 of
              None \<Rightarrow> WARN ''Max allocations reached'' ln fl d
            | Some i \<Rightarrow>
                d\<lparr>mem := (mem d)[i := \<lparr>address = a, msize = sz, mline = ln, mfile = fl\<rparr>],
                  total_allocated_size := total_allocated_size d + sz\<rparr>))"

text \<open>\<^verbatim>\<open>_erase\<close>: the \<^verbatim>\<open>int\<close> it returns (\<open>0\<close> or \<open>-1\<close>) and the new \<^verbatim>\<open>MEMD_Data\<close>.\<close>

definition erase_alloc :: "size_t \<Rightarrow> uint32_t \<Rightarrow> string \<Rightarrow> MEMD_Data \<Rightarrow> int \<times> MEMD_Data" where
  "erase_alloc a ln fl d =
     (if a = 0 then (- 1, WARN ''Tried to free a null ptr'' ln fl d)
      else (case find_by_address d a of
              None \<Rightarrow> (- 1, WARN ''Double free detected'' ln fl d)
            | Some i \<Rightarrow>
                (0, d\<lparr>mem := (mem d)[i := (mem d ! i)\<lparr>address := 0\<rparr>],
                      total_free_size := total_free_size d + msize (mem d ! i)\<rparr>)))"

section \<open>Interceptor\<close>

text \<open>
  The real allocator is not part of memd.h. Every call forwarded to it is appended to
  \<open>heap_calls\<close>, with the pointer it returned; that pointer is an argument of the wrapper
  (\<open>ret\<close>), so that a theorem holds for whatever the real allocator answers.
\<close>

datatype heap_call =
    Real_malloc size_t size_t
  | Real_calloc size_t size_t size_t
  | Real_realloc size_t size_t size_t
  | Real_free size_t

record memd_state =
  memd_data :: MEMD_Data
  memd_ignore :: int
  heap_calls :: "heap_call list"

definition init_state :: memd_state where
  "init_state = \<lparr>memd_data = MEMD_Data_init, memd_ignore = 0, heap_calls = []\<rparr>"

text \<open>\<^verbatim>\<open>_memd_malloc(size, line, file)\<close>, where the real \<^verbatim>\<open>malloc(size)\<close> returns \<open>ret\<close>.\<close>

definition memd_malloc ::
  "size_t \<Rightarrow> size_t \<Rightarrow> uint32_t \<Rightarrow> string \<Rightarrow> memd_state \<Rightarrow> size_t \<times> memd_state" where
  "memd_malloc ret sz ln fl s =
     (let s1 = s\<lparr>heap_calls := heap_calls s @ [Real_malloc sz ret]\<rparr>;
          s2 = (if memd_ignore s1 \<noteq> 1
                then s1\<lparr>memd_data := insert_alloc ret sz ln fl (memd_data s1)\<rparr>
                else s1)
      in (ret, s2))"

text \<open>\<^verbatim>\<open>_memd_calloc(num, size, line, file)\<close>, where the real \<^verbatim>\<open>calloc(num, size)\<close> returns \<open>ret\<close>.\<close>

definition memd_calloc ::
  "size_t \<Rightarrow> size_t \<Rightarrow> size_t \<Rightarrow> uint32_t \<Rightarrow> string \<Rightarrow> memd_state \<Rightarrow> size_t \<times> memd_state" where
  "memd_calloc ret num sz ln fl s =
     (let totalSize = num * sz;
          s1 = s\<lparr>heap_calls := heap_calls s @ [Real_calloc num sz ret]\<rparr>;
          s2 = (if memd_ignore s1 \<noteq> 1 \<and> ret \<noteq> 0
                then s1\<lparr>memd_data := insert_alloc ret totalSize ln fl (memd_data s1)\<rparr>
                else s1)
      in (ret, s2))"

text \<open>\<^verbatim>\<open>_memd_free(ptr, line, file)\<close>.\<close>

definition memd_free :: "size_t \<Rightarrow> uint32_t \<Rightarrow> string \<Rightarrow> memd_state \<Rightarrow> memd_state" where
  "memd_free ptr ln fl s =
     (if memd_ignore s \<noteq> 1
      then (case erase_alloc ptr ln fl (memd_data s) of
              (r, d) \<Rightarrow>
                if r = 0
                then s\<lparr>memd_data := d, heap_calls := heap_calls s @ [Real_free ptr]\<rparr>
                else s\<lparr>memd_data := d\<rparr>)
      else s)"

text \<open>
  \<^verbatim>\<open>_memd_realloc(ptr, size, line, file)\<close>; \<open>ret\<close> is what the real \<^verbatim>\<open>malloc\<close> (first
  branch) or the real \<^verbatim>\<open>realloc\<close> (last branch) returns.
\<close>

definition memd_realloc ::
  "size_t \<Rightarrow> size_t \<Rightarrow> size_t \<Rightarrow> uint32_t \<Rightarrow> string \<Rightarrow> memd_state \<Rightarrow> size_t \<times> memd_state" where
  "memd_realloc ret ptr sz ln fl s =
     (if ptr = 0 then memd_malloc ret sz ln fl s
      else if sz = 0 then (0, memd_free ptr ln fl s)
      else
        (let newPtr = ret;
             s1 = s\<lparr>heap_calls := heap_calls s @ [Real_realloc ptr sz newPtr]\<rparr>;
             s2 = (if newPtr \<noteq> 0 \<and> memd_ignore s1 \<noteq> 1
                   then s1\<lparr>memd_data :=
                          insert_alloc newPtr sz ln fl (snd (erase_alloc ptr ln fl (memd_data s1)))\<rparr>
                   else s1)
         in (newPtr, s2)))"

text \<open>\<^verbatim>\<open>memd_pause\<close> and \<^verbatim>\<open>memd_resume\<close>.\<close>

definition memd_pause :: "memd_state \<Rightarrow> memd_state" where
  "memd_pause s = s\<lparr>memd_ignore := 1\<rparr>"

definition memd_resume :: "memd_state \<Rightarrow> memd_state" where
  "memd_resume s = s\<lparr>memd_ignore := 0\<rparr>"

text \<open>A program, as far as memd.h sees it: the sequence of its calls.\<close>

datatype memd_op =
    Malloc size_t size_t uint32_t string
  | Calloc size_t size_t size_t uint32_t string
  | Free size_t uint32_t string
  | Realloc size_t size_t size_t uint32_t string
  | Pause
  | Resume

fun step :: "memd_state \<Rightarrow> memd_op \<Rightarrow> memd_state" where
  "step s (Malloc ret sz ln fl) = snd (memd_malloc ret sz ln fl s)"
| "step s (Calloc ret num sz ln fl) = snd (memd_calloc ret num sz ln fl s)"
| "step s (Free ptr ln fl) = memd_free ptr ln fl s"
| "step s (Realloc ret ptr sz ln fl) = snd (memd_realloc ret ptr sz ln fl s)"
| "step s Pause = memd_pause s"
| "step s Resume = memd_resume s"

definition run :: "memd_state \<Rightarrow> memd_op list \<Rightarrow> memd_state" where
  "run s ops = foldl step s ops"

section \<open>Report generator\<close>

text \<open>
  What \<^verbatim>\<open>snprintf\<close> prints for \<^verbatim>\<open>%lu\<close> (an unsigned decimal) and for \<^verbatim>\<open>%d\<close> (a signed
  one; the \<^verbatim>\<open>uint32_t\<close> line is read as an \<^verbatim>\<open>int\<close>).
\<close>

definition digit_char :: "nat \<Rightarrow> char" where
  "digit_char n = ''0123456789'' ! n"

function dec_nat :: "nat \<Rightarrow> string" where
  "dec_nat n = (if n < 10 then [digit_char n] else dec_nat (n div 10) @ [digit_char (n mod 10)])"
  by pat_completeness auto
termination
  by (relation "measure (\<lambda>n. n)") auto

declare dec_nat.simps [simp del]

definition dec_int :: "int \<Rightarrow> string" where
  "dec_int i = (if i < 0 then ''-'' @ dec_nat (nat (- i)) else dec_nat (nat i))"

definition fmt_lu :: "size_t \<Rightarrow> string" where
  "fmt_lu x = dec_nat (unat x)"

definition fmt_d :: "uint32_t \<Rightarrow> string" where
  "fmt_d x = dec_int (sint x)"

text \<open>The formatted fragments of \<^verbatim>\<open>memd_report\<close>, one per \<^verbatim>\<open>APPEND_TO_REPORT\<close>.\<close>

definition rule_line :: string where
  "rule_line = ''----------------------------------''"

definition frag_header1 :: string where
  "frag_header1 = ''\<newline>'' @ rule_line @ ''\<newline>''"

definition frag_header2 :: string where
  "frag_header2 = ''MEMD Leak Summary:\<newline>''"

definition frag_header3 :: string where
  "frag_header3 = rule_line @ ''\<newline>\<newline>''"

definition frag_allocated :: "MEMD_Data \<Rightarrow> string" where
  "frag_allocated d =
     ''   Total Memory allocated '' @ fmt_lu (total_allocated_size d) @ '' bytes\<newline>''"

definition frag_freed :: "MEMD_Data \<Rightarrow> string" where
  "frag_freed d =
     ''   Total Memory freed     '' @ fmt_lu (total_free_size d) @ '' bytes\<newline>''"

definition frag_leaked :: "MEMD_Data \<Rightarrow> string" where
  "frag_leaked d =
     ''   Memory Leaked          '' @ fmt_lu (total_allocated_size d - total_free_size d)
       @ '' bytes\<newline>''"

definition frag_detailed :: string where
  "frag_detailed = ''\<newline>   Detailed Report:\<newline>''"

definition frag_leak :: "MEMD_Mem \<Rightarrow> string" where
  "frag_leak r =
     ''     Memory leak at '' @ mfile r @ '':'' @ fmt_d (mline r) @ '': ('' @ fmt_lu (msize r)
       @ '' bytes)\<newline>''"

definition frag_warnings :: string where
  "frag_warnings = ''\<newline>   Warnings:\<newline>''"

definition frag_warning :: "MEMD_Warning \<Rightarrow> string" where
  "frag_warning w =
     ''    - '' @ wfile w @ '':'' @ fmt_d (wline w) @ '': '' @ message w @ ''\<newline>''"

definition frag_footer :: string where
  "frag_footer = ''\<newline>'' @ rule_line @ ''\<newline>\<newline>''"

text \<open>
  The buffer of \<^verbatim>\<open>memd_report\<close>: the characters written so far (\<open>report\<close>), the
  capacity \<^verbatim>\<open>buffer_size\<close>, the \<^verbatim>\<open>offset\<close>, and the calls made to the real allocator
  (\<^verbatim>\<open>memd_report\<close> stands before the macros that redirect \<^verbatim>\<open>malloc\<close>, so its calls are the
  real ones). Capacities are natural numbers: a capacity that wraps around \<^verbatim>\<open>size_t\<close> needs
  a report of \<open>2 ^ 63\<close> bytes. Whether the real allocator grants a request of \<open>n\<close> bytes is
  the parameter \<open>avail n\<close>; one report asks for each capacity at most once.
\<close>

datatype report_call = Report_malloc nat | Report_realloc nat | Report_free

record report_buf =
  report :: string
  buffer_size :: nat
  offset :: nat
  report_calls :: "report_call list"

text \<open>
  The loop \<^verbatim>\<open>while (offset + needed >= buffer_size) buffer_size *= 2;\<close>, where \<open>need\<close> is
  \<^verbatim>\<open>offset + needed\<close>. \<open>None\<close>: the loop does not end.
\<close>

partial_function (option) grow_buffer :: "nat \<Rightarrow> nat \<Rightarrow> nat option" where
  "grow_buffer need bs = (if need \<ge> bs then grow_buffer need (bs * 2) else Some bs)"

declare grow_buffer.simps [code]

text \<open>
  The second \<^verbatim>\<open>snprintf\<close> of the macro, into \<^verbatim>\<open>report + offset\<close> with room for
  \<^verbatim>\<open>buffer_size - offset\<close> bytes (the last one a NUL), and the update of \<^verbatim>\<open>offset\<close>.
\<close>

definition write_fragment :: "string \<Rightarrow> report_buf \<Rightarrow> report_buf" where
  "write_fragment frag b =
     (let written = int (length frag)
      in b\<lparr>report := take (offset b) (report b) @ take (buffer_size b - offset b - 1) frag,
           offset := (if written > 0 then offset b + nat written else offset b)\<rparr>)"

text \<open>
  \<^verbatim>\<open>APPEND_TO_REPORT\<close> for the formatted text \<open>frag\<close>. \<open>Some (Inr b)\<close>: the macro falls
  through with buffer \<open>b\<close>; \<open>Some (Inl calls)\<close>: it has executed \<^verbatim>\<open>return NULL\<close>, after
  these calls to the allocator; \<open>None\<close>: it does not return.
\<close>

definition APPEND_TO_REPORT ::
  "(nat \<Rightarrow> bool) \<Rightarrow> string \<Rightarrow> report_buf \<Rightarrow> (report_call list + report_buf) option" where
  "APPEND_TO_REPORT avail frag b =
     (let needed = int (length frag)
      in if needed < 0 then Some (Inr b)
         else if offset b + nat needed \<ge> buffer_size b
         then (case grow_buffer (offset b + nat needed) (buffer_size b) of
                 None \<Rightarrow> None
               | Some bs \<Rightarrow>
                   if \<not> avail bs
                   then Some (Inl (report_calls b @ [Report_realloc bs, Report_free]))
                   else Some (Inr (write_fragment frag
                          (b\<lparr>buffer_size := bs,
                             report_calls := report_calls b @ [Report_realloc bs]\<rparr>))))
         else Some (Inr (write_fragment frag b)))"

text \<open>Sequencing of statements that may return \<^verbatim>\<open>NULL\<close> from \<^verbatim>\<open>memd_report\<close>.\<close>

definition and_then ::
  "(report_call list + report_buf) option \<Rightarrow>
   (report_buf \<Rightarrow> (report_call list + report_buf) option) \<Rightarrow>
   (report_call list + report_buf) option" where
  "and_then r f =
     (case r of None \<Rightarrow> None | Some (Inl c) \<Rightarrow> Some (Inl c) | Some (Inr b) \<Rightarrow> f b)"

text \<open>The loop over the record table, from slot \<open>i\<close> on.\<close>

function leak_loop ::
  "(nat \<Rightarrow> bool) \<Rightarrow> MEMD_Data \<Rightarrow> nat \<Rightarrow> report_buf \<Rightarrow> (report_call list + report_buf) option" where
  "leak_loop avail d i b =
     (if i < MEMD_MAX_ALLOCATIONS
      then (if address (mem d ! i) \<noteq> 0
            then (case APPEND_TO_REPORT avail (frag_leak (mem d ! i)) b of
                    None \<Rightarrow> None
                  | Some (Inl c) \<Rightarrow> Some (Inl c)
                  | Some (Inr b') \<Rightarrow> leak_loop avail d (i + 1) b')
            else leak_loop avail d (i + 1) b)
      else Some (Inr b))"
  by pat_completeness auto
termination
  by (relation "measure (\<lambda>(avail, d, i, b). MEMD_MAX_ALLOCATIONS - i)") auto

declare leak_loop.simps [simp del]

text \<open>The loop over the warnings, from index \<open>i\<close> on.\<close>

function warning_loop ::
  "(nat \<Rightarrow> bool) \<Rightarrow> MEMD_Data \<Rightarrow> nat \<Rightarrow> report_buf \<Rightarrow> (report_call list + report_buf) option" where
  "warning_loop avail d i b =
     (if int i < warning_count d
      then (case APPEND_TO_REPORT avail (frag_warning (warnings d ! i)) b of
              None \<Rightarrow> None
            | Some (Inl c) \<Rightarrow> Some (Inl c)
            | Some (Inr b') \<Rightarrow> warning_loop avail d (i + 1) b')
      else Some (Inr b))"
  by pat_completeness auto
termination
  by (relation "measure (\<lambda>(avail, d, i, b). nat (warning_count d) - i)") auto

declare warning_loop.simps [simp del]

text \<open>
  \<^verbatim>\<open>memd_report\<close>: the pointer it returns (\<open>None\<close> is \<^verbatim>\<open>NULL\<close>, otherwise the text of the
  buffer) and the calls it made to the real allocator; the outer \<open>None\<close> is a run that does
  not return.
\<close>

definition memd_report ::
  "(nat \<Rightarrow> bool) \<Rightarrow> MEMD_Data \<Rightarrow> (string option \<times> report_call list) option" where
  "memd_report avail d =
     (let buffer_size0 = 1024 * 10
      in if \<not> avail buffer_size0 then Some (None, [Report_malloc buffer_size0])
         else
           (case
              and_then (APPEND_TO_REPORT avail frag_header1
                 \<lparr>report = [], buffer_size = buffer_size0, offset = 0,
                  report_calls = [Report_malloc buffer_size0]\<rparr>) (\<lambda>b.
              and_then (APPEND_TO_REPORT avail frag_header2 b) (\<lambda>b.
              and_then (APPEND_TO_REPORT avail frag_header3 b) (\<lambda>b.
              and_then (APPEND_TO_REPORT avail (frag_allocated d) b) (\<lambda>b.
              and_then (APPEND_TO_REPORT avail (frag_freed d) b) (\<lambda>b.
              and_then (APPEND_TO_REPORT avail (frag_leaked d) b) (\<lambda>b.
              and_then
                (if total_free_size d \<noteq> total_allocated_size d
                 then and_then (APPEND_TO_REPORT avail frag_detailed b) (leak_loop avail d 0)
                 else Some (Inr b)) (\<lambda>b.
              and_then
                (if warning_count d > 0
                 then and_then (APPEND_TO_REPORT avail frag_warnings b) (warning_loop avail d 0)
                 else Some (Inr b)) (\<lambda>b.
              APPEND_TO_REPORT avail frag_footer b))))))))
            of
              None \<Rightarrow> None
            | Some (Inl calls) \<Rightarrow> Some (None, calls)
            | Some (Inr b) \<Rightarrow> Some (Some (report b), report_calls b)))"

section \<open>Quantities the properties speak of\<close>

text \<open>
  The tracked records: the slots whose address is not 0, in slot order; and the sum of
  their sizes, in \<^verbatim>\<open>size_t\<close> arithmetic and as a natural number.
\<close>

definition live_records :: "MEMD_Data \<Rightarrow> MEMD_Mem list" where
  "live_records d = filter (\<lambda>r. address r \<noteq> 0) (mem d)"

definition live_total :: "MEMD_Data \<Rightarrow> size_t" where
  "live_total d = sum_list (map msize (live_records d))"

definition live_bytes :: "MEMD_Data \<Rightarrow> nat" where
  "live_bytes d = sum_list (map (\<lambda>r. unat (msize r)) (live_records d))"

text \<open>The warnings recorded so far, in recording order.\<close>

definition recorded_warnings :: "MEMD_Data \<Rightarrow> MEMD_Warning list" where
  "recorded_warnings d = take (nat (warning_count d)) (warnings d)"

text \<open>
  The bytes a call adds to \<^verbatim>\<open>total_allocated_size\<close>, as a number: the size, when
  \<^verbatim>\<open>_insert\<close> is reached with a nonzero address and finds an empty slot; nothing for a
  request that is suppressed, refused by the real allocator or over the capacity. Their sum
  over a program run from state \<open>s\<close> is what \<^verbatim>\<open>total_allocated_size\<close> would hold if
  \<^verbatim>\<open>size_t\<close> were unbounded.
\<close>

definition insert_counted :: "size_t \<Rightarrow> size_t \<Rightarrow> MEMD_Data \<Rightarrow> nat" where
  "insert_counted a sz d = (if a \<noteq> 0 \<and> find_by_address d 0 \<noteq> None then unat sz else 0)"

fun counted :: "memd_state \<Rightarrow> memd_op \<Rightarrow> nat" where
  "counted s (Malloc ret sz ln fl) =
     (if memd_ignore s \<noteq> 1 then insert_counted ret sz (memd_data s) else 0)"
| "counted s (Calloc ret num sz ln fl) =
     (if memd_ignore s \<noteq> 1 \<and> ret \<noteq> 0 then insert_counted ret (num * sz) (memd_data s) else 0)"
| "counted s (Realloc ret ptr sz ln fl) =
     (if ptr = 0
      then (if memd_ignore s \<noteq> 1 then insert_counted ret sz (memd_data s) else 0)
      else if sz = 0 then 0
      else if ret \<noteq> 0 \<and> memd_ignore s \<noteq> 1
      then insert_counted ret sz (snd (erase_alloc ptr ln fl (memd_data s)))
      else 0)"
| "counted s (Free ptr ln fl) = 0"
| "counted s Pause = 0"
| "counted s Resume = 0"

fun total_counted :: "memd_state \<Rightarrow> memd_op list \<Rightarrow> nat" where
  "total_counted s [] = 0"
| "total_counted s (x # ops) = counted s x + total_counted (step s x) ops"







text \<open>Two states with the same record table, totals and flag keep them the same under any call.\<close>

definition same_registry :: "memd_state \<Rightarrow> memd_state \<Rightarrow> bool" where
  "same_registry s t =
     (mem (memd_data s) = mem (memd_data t) \<and>
      total_allocated_size (memd_data s) = total_allocated_size (memd_data t) \<and>
      total_free_size (memd_data s) = total_free_size (memd_data t) \<and>
      memd_ignore s = memd_ignore t)"

text \<open>
  The totals have not wrapped around: \<^verbatim>\<open>total_allocated_size\<close> is the number \<open>A\<close>, and it
  is the sum of \<^verbatim>\<open>total_free_size\<close> and the sizes of the tracked records.
\<close>

definition no_wrap :: "MEMD_Data \<Rightarrow> nat \<Rightarrow> bool" where
  "no_wrap d A =
     (wf_Data d \<and>
      unat (total_allocated_size d) = unat (total_free_size d) + live_bytes d \<and>
      unat (total_allocated_size d) = A)"

text \<open>
  The buffer is in order: \<open>report\<close> holds the \<open>offset\<close> characters written so far, and
  they and the final NUL fit in the capacity.
\<close>

definition buf_ok :: "report_buf \<Rightarrow> bool" where
  "buf_ok b = (length (report b) = offset b \<and> offset b < buffer_size b)"

text \<open>A sequence of \<^verbatim>\<open>APPEND_TO_REPORT\<close>, one per fragment of the list.\<close>

primrec append_all ::
  "(nat \<Rightarrow> bool) \<Rightarrow> string list \<Rightarrow> report_buf \<Rightarrow> (report_call list + report_buf) option" where
  "append_all avail [] = (\<lambda>b. Some (Inr b))"
| "append_all avail (frag # frags) =
     (\<lambda>b. and_then (APPEND_TO_REPORT avail frag b) (append_all avail frags))"

text \<open>The fragments \<^verbatim>\<open>memd_report\<close> appends, in order.\<close>

definition report_fragments :: "MEMD_Data \<Rightarrow> string list" where
  "report_fragments d =
     [frag_header1, frag_header2, frag_header3, frag_allocated d, frag_freed d, frag_leaked d]
     @ (if total_free_size d \<noteq> total_allocated_size d
        then frag_detailed # map frag_leak (live_records d) else [])
     @ (if warning_count d > 0
        then frag_warnings # map frag_warning (recorded_warnings d) else [])
     @ [frag_footer]"

text \<open>
  The text of the report as the specification lays it out: header, the three totals, the
  Detailed Report section when the leaked bytes are not 0, the Warnings section when there
  is a warning, footer.
\<close>

definition report_text :: "MEMD_Data \<Rightarrow> string" where
  "report_text d =
     frag_header1 @ frag_header2 @ frag_header3
     @ frag_allocated d @ frag_freed d @ frag_leaked d
     @ (if total_allocated_size d - total_free_size d \<noteq> 0
        then frag_detailed @ concat (map frag_leak (live_records d)) else [])
     @ (if recorded_warnings d \<noteq> []
        then frag_warnings @ concat (map frag_warning (recorded_warnings d)) else [])
     @ frag_footer"

text \<open>A call to the real allocator that asks for memory and gets it.\<close>

fun granted_call :: "(nat \<Rightarrow> bool) \<Rightarrow> report_call \<Rightarrow> bool" where
  "granted_call avail (Report_malloc n) = avail n"
| "granted_call avail (Report_realloc n) = avail n"
| "granted_call avail Report_free = False"

section \<open>Lemmas on the registry and the warning log\<close>

lemma find_from_Some_iff:
  "find_from m a i = Some k \<longleftrightarrow>
     i \<le> k \<and> k < MEMD_MAX_ALLOCATIONS \<and> address (m ! k) = a \<and>
     (\<forall>j. i \<le> j \<and> j < k \<longrightarrow> address (m ! j) \<noteq> a)"
proof (induction m a i rule: find_from.induct)
  case (1 m a i)
  show ?case
  proof (cases "i < MEMD_MAX_ALLOCATIONS")
    case False
    then show ?thesis by (auto simp: find_from.simps [of m a i])
  next
    case bound: True
    show ?thesis
    proof (cases "address (m ! i) = a")
      case True
      have "find_from m a i = Some i"
        using bound True by (simp add: find_from.simps [of m a i])
      moreover have "i = k \<longleftrightarrow> i \<le> k \<and> k < MEMD_MAX_ALLOCATIONS \<and> address (m ! k) = a \<and>
          (\<forall>j. i \<le> j \<and> j < k \<longrightarrow> address (m ! j) \<noteq> a)"
        using bound True by (cases "i < k") (fastforce, auto)
      ultimately show ?thesis by simp
    next
      case False
      have eq: "find_from m a i = find_from m a (i + 1)"
        using bound False by (simp add: find_from.simps [of m a i])
      have ih: "find_from m a (i + 1) = Some k \<longleftrightarrow>
          i + 1 \<le> k \<and> k < MEMD_MAX_ALLOCATIONS \<and> address (m ! k) = a \<and>
          (\<forall>j. i + 1 \<le> j \<and> j < k \<longrightarrow> address (m ! j) \<noteq> a)"
        using "1.IH" [OF bound False] .
      have "(i + 1 \<le> k \<and> k < MEMD_MAX_ALLOCATIONS \<and> address (m ! k) = a \<and>
          (\<forall>j. i + 1 \<le> j \<and> j < k \<longrightarrow> address (m ! j) \<noteq> a)) \<longleftrightarrow>
          (i \<le> k \<and> k < MEMD_MAX_ALLOCATIONS \<and> address (m ! k) = a \<and>
          (\<forall>j. i \<le> j \<and> j < k \<longrightarrow> address (m ! j) \<noteq> a))"
        using False by (metis Suc_eq_plus1 Suc_leI le_eq_less_or_eq not_less_eq_eq Suc_le_eq Suc_leD)
      with eq ih show ?thesis by simp
    qed
  qed
qed

lemma find_from_None_iff:
  "find_from m a i = None \<longleftrightarrow>
     (\<forall>j. i \<le> j \<and> j < MEMD_MAX_ALLOCATIONS \<longrightarrow> address (m ! j) \<noteq> a)"
proof (induction m a i rule: find_from.induct)
  case (1 m a i)
  show ?case
  proof (cases "i < MEMD_MAX_ALLOCATIONS")
    case False
    then show ?thesis by (auto simp: find_from.simps [of m a i])
  next
    case bound: True
    show ?thesis
    proof (cases "address (m ! i) = a")
      case True
      then show ?thesis using bound by (auto simp: find_from.simps [of m a i])
    next
      case False
      have eq: "find_from m a i = find_from m a (i + 1)"
        using bound False by (simp add: find_from.simps [of m a i])
      have "(\<forall>j. i + 1 \<le> j \<and> j < MEMD_MAX_ALLOCATIONS \<longrightarrow> address (m ! j) \<noteq> a) \<longleftrightarrow>
            (\<forall>j. i \<le> j \<and> j < MEMD_MAX_ALLOCATIONS \<longrightarrow> address (m ! j) \<noteq> a)"
        using False by (metis Suc_eq_plus1 Suc_leI le_eq_less_or_eq le_add1 order_trans)
      with eq "1.IH" [OF bound False] show ?thesis by simp
    qed
  qed
qed

lemma find_by_address_Some_iff:
  "find_by_address d a = Some k \<longleftrightarrow>
     k < MEMD_MAX_ALLOCATIONS \<and> address (mem d ! k) = a \<and>
     (\<forall>j. j < k \<longrightarrow> address (mem d ! j) \<noteq> a)"
  by (simp add: find_by_address_def find_from_Some_iff)

lemma find_by_address_None_iff:
  "find_by_address d a = None \<longleftrightarrow>
     (\<forall>j. j < MEMD_MAX_ALLOCATIONS \<longrightarrow> address (mem d ! j) \<noteq> a)"
  by (simp add: find_by_address_def find_from_None_iff)

lemma mem_WARN [simp]: "mem (WARN msg ln fl d) = mem d"
  by (simp add: WARN_def)

lemma total_allocated_WARN [simp]: "total_allocated_size (WARN msg ln fl d) = total_allocated_size d"
  by (simp add: WARN_def)

lemma total_free_WARN [simp]: "total_free_size (WARN msg ln fl d) = total_free_size d"
  by (simp add: WARN_def)

lemma wf_Data_WARN: "wf_Data d \<Longrightarrow> wf_Data (WARN msg ln fl d)"
  by (simp add: WARN_def wf_Data_def)

lemma wf_Data_init: "wf_Data MEMD_Data_init"
  by (simp add: wf_Data_def MEMD_Data_init_def MEMD_MAX_WARNINGS_def)

lemma wf_Data_insert: "wf_Data d \<Longrightarrow> wf_Data (insert_alloc a sz ln fl d)"
  by (auto simp: insert_alloc_def wf_Data_WARN split: option.splits) (simp add: wf_Data_def)

lemma wf_Data_erase: "wf_Data d \<Longrightarrow> wf_Data (snd (erase_alloc a ln fl d))"
  by (auto simp: erase_alloc_def wf_Data_WARN split: option.splits) (simp add: wf_Data_def)

lemma find_by_address_None_set:
  "length (mem d) = MEMD_MAX_ALLOCATIONS \<Longrightarrow>
     find_by_address d a = None \<longleftrightarrow> a \<notin> address ` set (mem d)"
  by (auto simp: find_by_address_None_iff in_set_conv_nth) (metis nth_mem imageI)

lemma recorded_warnings_WARN:
  assumes "wf_Data d" and "warning_count d < MEMD_MAX_WARNINGS"
  shows "recorded_warnings (WARN msg ln fl d) =
           recorded_warnings d @ [\<lparr>message = take 127 msg, wline = ln, wfile = fl\<rparr>]"
proof -
  let ?n = "nat (warning_count d)"
  have n: "?n < length (warnings d)"
    using assms by (simp add: wf_Data_def)
  have "nat (warning_count d + 1) = Suc ?n"
    using assms unfolding wf_Data_def by linarith
  then show ?thesis
    using assms n by (simp add: recorded_warnings_def WARN_def take_Suc_conv_app_nth)
qed

lemma warning_count_WARN:
  "warning_count (WARN msg ln fl d) =
     (if warning_count d < MEMD_MAX_WARNINGS then warning_count d + 1 else warning_count d)"
  by (simp add: WARN_def)

lemma WARN_full: "\<not> warning_count d < MEMD_MAX_WARNINGS \<Longrightarrow> WARN msg ln fl d = d"
  by (simp add: WARN_def)

lemma run_snoc: "run s (ops @ [x]) = step (run s ops) x"
  by (simp add: run_def)

lemma run_Nil: "run s [] = s"
  by (simp add: run_def)

lemma run_Cons: "run s (x # ops) = run (step s x) ops"
  by (simp add: run_def)

text \<open>The state after \<open>n\<close> releases of an address that was never allocated.\<close>

lemma stray_frees_state:
  assumes "p \<noteq> 0"
  shows "memd_ignore (run init_state (replicate n (Free p ln fl))) = 0 \<and>
         heap_calls (run init_state (replicate n (Free p ln fl))) = [] \<and>
         wf_Data (memd_data (run init_state (replicate n (Free p ln fl)))) \<and>
         mem (memd_data (run init_state (replicate n (Free p ln fl)))) =
           replicate MEMD_MAX_ALLOCATIONS zero_Mem \<and>
         total_allocated_size (memd_data (run init_state (replicate n (Free p ln fl)))) = 0 \<and>
         total_free_size (memd_data (run init_state (replicate n (Free p ln fl)))) = 0 \<and>
         warning_count (memd_data (run init_state (replicate n (Free p ln fl)))) =
           min (int n) MEMD_MAX_WARNINGS"
proof (induction n)
  case 0
  show ?case
    by (simp add: run_Nil init_state_def wf_Data_init)
       (simp add: MEMD_Data_init_def MEMD_MAX_WARNINGS_def)
next
  case (Suc n)
  let ?S = "run init_state (replicate n (Free p ln fl))"
  have unfold: "run init_state (replicate (Suc n) (Free p ln fl)) = memd_free p ln fl ?S"
    using run_snoc [of init_state "replicate n (Free p ln fl)" "Free p ln fl"]
    by (simp add: replicate_append_same)
  have none: "find_by_address (memd_data ?S) p = None"
    using Suc assms by (simp add: find_by_address_None_iff zero_Mem_def)
  have free: "memd_free p ln fl ?S =
      ?S\<lparr>memd_data := WARN ''Double free detected'' ln fl (memd_data ?S)\<rparr>"
    using Suc assms none by (simp add: memd_free_def erase_alloc_def)
  show ?case
    unfolding unfold free using Suc
    by (auto simp: wf_Data_WARN warning_count_WARN MEMD_MAX_WARNINGS_def)
qed

lemma find_by_address_cong: "mem d = mem e \<Longrightarrow> find_by_address d a = find_by_address e a"
  by (simp add: find_by_address_def)

lemma insert_alloc_same:
  assumes "mem d = mem e" "total_allocated_size d = total_allocated_size e"
    "total_free_size d = total_free_size e"
  shows "mem (insert_alloc a sz ln fl d) = mem (insert_alloc a sz ln fl e) \<and>
         total_allocated_size (insert_alloc a sz ln fl d)
           = total_allocated_size (insert_alloc a sz ln fl e) \<and>
         total_free_size (insert_alloc a sz ln fl d) = total_free_size (insert_alloc a sz ln fl e)"
  using assms find_by_address_cong [OF assms(1), of 0]
  by (simp add: insert_alloc_def split: option.splits)

lemma erase_alloc_same:
  assumes "mem d = mem e" "total_allocated_size d = total_allocated_size e"
    "total_free_size d = total_free_size e"
  shows "fst (erase_alloc a ln fl d) = fst (erase_alloc a ln fl e) \<and>
         mem (snd (erase_alloc a ln fl d)) = mem (snd (erase_alloc a ln fl e)) \<and>
         total_allocated_size (snd (erase_alloc a ln fl d))
           = total_allocated_size (snd (erase_alloc a ln fl e)) \<and>
         total_free_size (snd (erase_alloc a ln fl d))
           = total_free_size (snd (erase_alloc a ln fl e))"
  using assms find_by_address_cong [OF assms(1), of a]
  by (simp add: erase_alloc_def split: option.splits)

lemma memd_data_free:
  "memd_data (memd_free ptr ln fl s) =
     (if memd_ignore s \<noteq> 1 then snd (erase_alloc ptr ln fl (memd_data s)) else memd_data s)"
  by (simp add: memd_free_def split: prod.splits)

lemma memd_ignore_free [simp]: "memd_ignore (memd_free ptr ln fl s) = memd_ignore s"
  by (simp add: memd_free_def split: prod.splits)

lemma same_registry_step:
  assumes "same_registry s t"
  shows "same_registry (step s x) (step t x)"
proof (cases x)
  case (Malloc ret sz ln fl)
  then show ?thesis
    using assms insert_alloc_same [of "memd_data s" "memd_data t" ret sz ln fl]
    by (simp add: same_registry_def memd_malloc_def Let_def)
next
  case (Calloc ret num sz ln fl)
  then show ?thesis
    using assms insert_alloc_same [of "memd_data s" "memd_data t" ret "num * sz" ln fl]
    by (simp add: same_registry_def memd_calloc_def Let_def)
next
  case (Free ptr ln fl)
  then show ?thesis
    using assms erase_alloc_same [of "memd_data s" "memd_data t" ptr ln fl]
    by (simp add: same_registry_def memd_data_free)
next
  case (Realloc ret ptr sz ln fl)
  note e = erase_alloc_same [of "memd_data s" "memd_data t" ptr ln fl]
  have i: "mem d = mem e \<Longrightarrow> total_allocated_size d = total_allocated_size e \<Longrightarrow>
    total_free_size d = total_free_size e \<Longrightarrow>
    mem (insert_alloc a z l f d) = mem (insert_alloc a z l f e) \<and>
         total_allocated_size (insert_alloc a z l f d)
           = total_allocated_size (insert_alloc a z l f e) \<and>
         total_free_size (insert_alloc a z l f d) = total_free_size (insert_alloc a z l f e)"
    for d e a z l f by (rule insert_alloc_same)
  from Realloc show ?thesis
    using assms e
      i [of "memd_data s" "memd_data t" ret sz ln fl]
      i [of "snd (erase_alloc ptr ln fl (memd_data s))" "snd (erase_alloc ptr ln fl (memd_data t))" ret sz ln fl]
    by (simp add: same_registry_def memd_realloc_def memd_malloc_def memd_data_free Let_def)
next
  case Pause
  then show ?thesis using assms by (simp add: same_registry_def memd_pause_def)
next
  case Resume
  then show ?thesis using assms by (simp add: same_registry_def memd_resume_def)
qed

lemma same_registry_run:
  "same_registry s t \<Longrightarrow> same_registry (run s ops) (run t ops)"
  by (induction ops arbitrary: s t) (simp_all add: run_Nil run_Cons same_registry_step)

lemma WARN_effect:
  assumes "wf_Data d"
  shows "mem (WARN msg ln fl d) = mem d \<and>
         total_allocated_size (WARN msg ln fl d) = total_allocated_size d \<and>
         total_free_size (WARN msg ln fl d) = total_free_size d \<and>
         (if warning_count d < MEMD_MAX_WARNINGS
          then warning_count (WARN msg ln fl d) = warning_count d + 1 \<and>
               recorded_warnings (WARN msg ln fl d) =
                 recorded_warnings d @ [\<lparr>message = take 127 msg, wline = ln, wfile = fl\<rparr>]
          else WARN msg ln fl d = d)"
  using assms by (simp add: warning_count_WARN WARN_full recorded_warnings_WARN)

lemma insert_alloc_full:
  assumes "length (mem d) = MEMD_MAX_ALLOCATIONS" and "a \<noteq> 0"
    and "0 \<notin> address ` set (mem d)"
  shows "insert_alloc a sz ln fl d = WARN ''Max allocations reached'' ln fl d"
proof -
  have "find_by_address d 0 = None"
    using assms by (simp add: find_by_address_None_set)
  then show ?thesis using assms(2) by (simp add: insert_alloc_def)
qed

lemma insert_alloc_slot:
  assumes "length (mem d) = MEMD_MAX_ALLOCATIONS" and "a \<noteq> 0"
    and "0 \<in> address ` set (mem d)"
  shows "\<exists>i. find_by_address d 0 = Some i \<and> i < MEMD_MAX_ALLOCATIONS \<and>
             address (mem d ! i) = 0 \<and> (\<forall>j. j < i \<longrightarrow> address (mem d ! j) \<noteq> 0) \<and>
             insert_alloc a sz ln fl d =
               d\<lparr>mem := (mem d)[i := \<lparr>address = a, msize = sz, mline = ln, mfile = fl\<rparr>],
                 total_allocated_size := total_allocated_size d + sz\<rparr>"
proof -
  have "find_by_address d 0 \<noteq> None"
    using assms by (simp add: find_by_address_None_set)
  then obtain i where i: "find_by_address d 0 = Some i" by auto
  then have "i < MEMD_MAX_ALLOCATIONS \<and> address (mem d ! i) = 0 \<and>
      (\<forall>j. j < i \<longrightarrow> address (mem d ! j) \<noteq> 0)"
    by (simp add: find_by_address_Some_iff)
  moreover have "insert_alloc a sz ln fl d =
               d\<lparr>mem := (mem d)[i := \<lparr>address = a, msize = sz, mline = ln, mfile = fl\<rparr>],
                 total_allocated_size := total_allocated_size d + sz\<rparr>"
    using i assms(2) by (simp add: insert_alloc_def)
  ultimately show ?thesis using i by blast
qed

lemma memd_malloc_tracked:
  "memd_ignore s \<noteq> 1 \<Longrightarrow>
     memd_malloc ret sz ln fl s =
       (ret, s\<lparr>heap_calls := heap_calls s @ [Real_malloc sz ret],
               memd_data := insert_alloc ret sz ln fl (memd_data s)\<rparr>)"
  by (simp add: memd_malloc_def Let_def)

text \<open>The state after \<open>n\<close> allocations that are never released, up to the capacity.\<close>

lemma fill_state:
  assumes "p \<noteq> 0" and "n \<le> MEMD_MAX_ALLOCATIONS"
  shows "memd_ignore (run init_state (replicate n (Malloc p sz ln fl))) = 0 \<and>
         wf_Data (memd_data (run init_state (replicate n (Malloc p sz ln fl)))) \<and>
         mem (memd_data (run init_state (replicate n (Malloc p sz ln fl)))) =
           replicate n \<lparr>address = p, msize = sz, mline = ln, mfile = fl\<rparr>
             @ replicate (MEMD_MAX_ALLOCATIONS - n) zero_Mem \<and>
         warning_count (memd_data (run init_state (replicate n (Malloc p sz ln fl)))) = 0"
  using assms(2)
proof (induction n)
  case 0
  show ?case
    by (simp add: run_Nil init_state_def wf_Data_init) (simp add: MEMD_Data_init_def)
next
  case (Suc n)
  let ?S = "run init_state (replicate n (Malloc p sz ln fl))"
  let ?r = "\<lparr>address = p, msize = sz, mline = ln, mfile = fl\<rparr>"
  from Suc have n: "n < MEMD_MAX_ALLOCATIONS" and IH: "memd_ignore ?S = 0"
    "wf_Data (memd_data ?S)"
    "mem (memd_data ?S) = replicate n ?r @ replicate (MEMD_MAX_ALLOCATIONS - n) zero_Mem"
    "warning_count (memd_data ?S) = 0"
    by simp_all
  have unfold: "run init_state (replicate (Suc n) (Malloc p sz ln fl)) =
      snd (memd_malloc p sz ln fl ?S)"
    using run_snoc [of init_state "replicate n (Malloc p sz ln fl)" "Malloc p sz ln fl"]
    by (simp add: replicate_append_same)
  have split: "replicate (MEMD_MAX_ALLOCATIONS - n) zero_Mem =
      zero_Mem # replicate (MEMD_MAX_ALLOCATIONS - Suc n) zero_Mem"
    using n by (simp add: Suc_diff_Suc flip: replicate_Suc)
  have slot: "find_by_address (memd_data ?S) 0 = Some n"
    using n assms(1) by (simp add: find_by_address_Some_iff IH(3) nth_append zero_Mem_def)
  have upd: "(mem (memd_data ?S))[n := ?r] =
      replicate (Suc n) ?r @ replicate (MEMD_MAX_ALLOCATIONS - Suc n) zero_Mem"
    unfolding IH(3) split
    by (simp add: list_update_append replicate_append_same)
  have ins: "insert_alloc p sz ln fl (memd_data ?S) =
      (memd_data ?S)\<lparr>mem := replicate (Suc n) ?r @ replicate (MEMD_MAX_ALLOCATIONS - Suc n) zero_Mem,
        total_allocated_size := total_allocated_size (memd_data ?S) + sz\<rparr>"
    using slot assms(1) upd by (simp add: insert_alloc_def)
  have wf: "wf_Data (insert_alloc p sz ln fl (memd_data ?S))"
    using IH(2) by (rule wf_Data_insert)
  show ?case
    unfolding unfold using IH wf by (simp add: memd_malloc_tracked) (simp add: ins)
qed

section \<open>Suppression\<close>

text \<open>
  C1. While \<^verbatim>\<open>_memd_ignore\<close> is 1, each of the four wrappers leaves \<^verbatim>\<open>MEMD_Data\<close> (the
  record table, both totals, the warning array and its count) exactly as it was; and
  pause, release of any address, resume leaves it as it was, from any state: no warning is
  recorded and the totals do not change.
\<close>

theorem suppressed_ops_keep_data:
  "(memd_ignore s = 1 \<longrightarrow>
      memd_data (snd (memd_malloc ret sz ln fl s)) = memd_data s \<and>
      memd_data (snd (memd_calloc ret num sz ln fl s)) = memd_data s \<and>
      memd_data (snd (memd_realloc ret ptr sz ln fl s)) = memd_data s \<and>
      memd_data (memd_free ptr ln fl s) = memd_data s) \<and>
   memd_data (memd_resume (memd_free ptr ln fl (memd_pause s))) = memd_data s \<and>
   warning_count (memd_data (run s [Pause, Free ptr ln fl, Resume])) = warning_count (memd_data s) \<and>
   total_allocated_size (memd_data (run s [Pause, Free ptr ln fl, Resume]))
     = total_allocated_size (memd_data s) \<and>
   total_free_size (memd_data (run s [Pause, Free ptr ln fl, Resume]))
     = total_free_size (memd_data s)"
  by (simp add: memd_malloc_def memd_calloc_def memd_realloc_def memd_free_def
      memd_pause_def memd_resume_def run_def Let_def)

theorem suppressed_ops_keep_data_witness:
  "memd_ignore (memd_pause init_state) = 1 \<and>
   memd_data (snd (memd_malloc 4096 100 8 ''main.c'' (memd_pause init_state))) = MEMD_Data_init \<and>
   memd_data (snd (memd_calloc 4096 10 100 8 ''main.c'' (memd_pause init_state))) = MEMD_Data_init \<and>
   memd_data (snd (memd_realloc 4096 8192 100 8 ''main.c'' (memd_pause init_state))) = MEMD_Data_init \<and>
   memd_data (memd_free 8192 8 ''main.c'' (memd_pause init_state)) = MEMD_Data_init"
proof -
  have h: "memd_ignore (memd_pause init_state) = 1"
    by (simp add: memd_pause_def)
  have d: "memd_data (memd_pause init_state) = MEMD_Data_init"
    by (simp add: memd_pause_def init_state_def)
  from h d suppressed_ops_keep_data [where s = "memd_pause init_state" and ret = 4096
      and sz = 100 and ln = 8 and fl = "''main.c''" and num = 10 and ptr = 8192]
  show ?thesis by simp
qed

section \<open>Release while paused\<close>

text \<open>
  C2. A release issued while tracking is paused does nothing at all: the state, and with
  it the list of calls forwarded to the real allocator, is unchanged, so the real
  \<^verbatim>\<open>free\<close> is not performed. In the run of example.c up to its paused release, the only
  call that reaches the real heap is the \<^verbatim>\<open>malloc\<close>.
\<close>

theorem paused_free_not_forwarded:
  "memd_free ptr ln fl (memd_pause s) = memd_pause s \<and>
   heap_calls (memd_free ptr ln fl (memd_pause s)) = heap_calls s \<and>
   heap_calls (run init_state
      [Malloc 4096 100 12 ''example.c'', Pause, Free 4096 19 ''example.c'', Resume])
     = [Real_malloc 100 4096]"
  by (simp add: memd_free_def memd_pause_def memd_resume_def memd_malloc_def run_def
      init_state_def Let_def)

section \<open>Release of an address without a live record\<close>

lemma live_address_iff:
  "a \<in> address ` set (live_records d) \<longleftrightarrow> a \<noteq> 0 \<and> a \<in> address ` set (mem d)"
  by (auto simp: live_records_def)

lemma erase_alloc_untracked:
  assumes "length (mem d) = MEMD_MAX_ALLOCATIONS" and "a \<noteq> 0"
    and "a \<notin> address ` set (live_records d)"
  shows "erase_alloc a ln fl d = (- 1, WARN ''Double free detected'' ln fl d)"
proof -
  have "find_by_address d a = None"
    using assms by (simp add: find_by_address_None_set live_address_iff)
  then show ?thesis using assms(2) by (simp add: erase_alloc_def)
qed

lemma erase_alloc_success_iff:
  assumes "length (mem d) = MEMD_MAX_ALLOCATIONS"
  shows "fst (erase_alloc a ln fl d) = 0 \<longleftrightarrow> a \<in> address ` set (live_records d)"
proof (cases "a = 0")
  case True
  then show ?thesis by (simp add: erase_alloc_def live_address_iff)
next
  case False
  show ?thesis
  proof (cases "find_by_address d a")
    case None
    then show ?thesis
      using False assms by (simp add: erase_alloc_def live_address_iff find_by_address_None_set [symmetric])
  next
    case (Some i)
    then have "find_by_address d a \<noteq> None" by simp
    then have "a \<in> address ` set (mem d)"
      using assms by (simp add: find_by_address_None_set)
    then show ?thesis
      using False Some by (simp add: erase_alloc_def live_address_iff)
  qed
qed

text \<open>
  C4 (amended). A release that is not suppressed, of a nonzero address with no live
  record, forwards nothing to the real heap and leaves the record table and both totals
  as they were. While the warning log has room it records exactly one warning,
  ``Double free detected'' with the line and file of the call; when the log already holds
  \<open>MEMD_MAX_WARNINGS\<close> warnings it records nothing. In general a release that is not
  suppressed forwards the real \<^verbatim>\<open>free\<close> exactly when \<^verbatim>\<open>_erase\<close> returns 0, which it does
  exactly when the address has a live record.
\<close>

theorem release_without_record:
  assumes "wf_Data (memd_data s)" and "memd_ignore s \<noteq> 1"
  shows
    "(ptr \<noteq> 0 \<and> ptr \<notin> address ` set (live_records (memd_data s)) \<longrightarrow>
        heap_calls (memd_free ptr ln fl s) = heap_calls s \<and>
        mem (memd_data (memd_free ptr ln fl s)) = mem (memd_data s) \<and>
        total_free_size (memd_data (memd_free ptr ln fl s)) = total_free_size (memd_data s) \<and>
        total_allocated_size (memd_data (memd_free ptr ln fl s))
          = total_allocated_size (memd_data s) \<and>
        (if warning_count (memd_data s) < MEMD_MAX_WARNINGS
         then warning_count (memd_data (memd_free ptr ln fl s)) = warning_count (memd_data s) + 1 \<and>
              recorded_warnings (memd_data (memd_free ptr ln fl s)) =
                recorded_warnings (memd_data s) @
                  [\<lparr>message = ''Double free detected'', wline = ln, wfile = fl\<rparr>]
         else memd_data (memd_free ptr ln fl s) = memd_data s)) \<and>
     heap_calls (memd_free ptr ln fl s) =
       (if fst (erase_alloc ptr ln fl (memd_data s)) = 0
        then heap_calls s @ [Real_free ptr] else heap_calls s) \<and>
     (fst (erase_alloc ptr ln fl (memd_data s)) = 0 \<longleftrightarrow>
        ptr \<in> address ` set (live_records (memd_data s)))"
proof -
  have len: "length (mem (memd_data s)) = MEMD_MAX_ALLOCATIONS"
    using assms(1) by (simp add: wf_Data_def)
  have forward: "heap_calls (memd_free ptr ln fl s) =
       (if fst (erase_alloc ptr ln fl (memd_data s)) = 0
        then heap_calls s @ [Real_free ptr] else heap_calls s)"
    using assms(2) by (simp add: memd_free_def split: prod.splits)
  have stray: "heap_calls (memd_free ptr ln fl s) = heap_calls s \<and>
        mem (memd_data (memd_free ptr ln fl s)) = mem (memd_data s) \<and>
        total_free_size (memd_data (memd_free ptr ln fl s)) = total_free_size (memd_data s) \<and>
        total_allocated_size (memd_data (memd_free ptr ln fl s))
          = total_allocated_size (memd_data s) \<and>
        (if warning_count (memd_data s) < MEMD_MAX_WARNINGS
         then warning_count (memd_data (memd_free ptr ln fl s)) = warning_count (memd_data s) + 1 \<and>
              recorded_warnings (memd_data (memd_free ptr ln fl s)) =
                recorded_warnings (memd_data s) @
                  [\<lparr>message = ''Double free detected'', wline = ln, wfile = fl\<rparr>]
         else memd_data (memd_free ptr ln fl s) = memd_data s)"
    if "ptr \<noteq> 0" and "ptr \<notin> address ` set (live_records (memd_data s))"
  proof -
    have e: "erase_alloc ptr ln fl (memd_data s) =
        (- 1, WARN ''Double free detected'' ln fl (memd_data s))"
      using len that by (rule erase_alloc_untracked)
    have d: "memd_free ptr ln fl s =
        s\<lparr>memd_data := WARN ''Double free detected'' ln fl (memd_data s)\<rparr>"
      using assms(2) e by (simp add: memd_free_def)
    show ?thesis
      unfolding d using assms(1)
      by (simp add: warning_count_WARN WARN_full recorded_warnings_WARN)
  qed
  from forward stray erase_alloc_success_iff [OF len] show ?thesis by blast
qed

theorem release_without_record_witness:
  "wf_Data (memd_data init_state) \<and> memd_ignore init_state \<noteq> 1 \<and> (4096 :: size_t) \<noteq> 0 \<and>
   4096 \<notin> address ` set (live_records (memd_data init_state)) \<and>
   heap_calls (memd_free 4096 9 ''main.c'' init_state) = [] \<and>
   total_free_size (memd_data (memd_free 4096 9 ''main.c'' init_state)) = 0 \<and>
   warning_count (memd_data (memd_free 4096 9 ''main.c'' init_state)) = 1 \<and>
   recorded_warnings (memd_data (memd_free 4096 9 ''main.c'' init_state)) =
     [\<lparr>message = ''Double free detected'', wline = 9, wfile = ''main.c''\<rparr>]"
proof -
  have wf: "wf_Data (memd_data init_state)"
    by (simp add: init_state_def wf_Data_init)
  have ign: "memd_ignore init_state \<noteq> 1"
    by (simp add: init_state_def)
  have nz: "(4096 :: size_t) \<noteq> 0" by simp
  have stray: "4096 \<notin> address ` set (live_records (memd_data init_state))"
    by (simp add: live_records_def init_state_def MEMD_Data_init_def zero_Mem_def)
  have vals: "heap_calls init_state = []" "total_free_size (memd_data init_state) = 0"
    "warning_count (memd_data init_state) = 0" "recorded_warnings (memd_data init_state) = []"
    "(0::int) < MEMD_MAX_WARNINGS"
    by (simp_all add: init_state_def MEMD_Data_init_def recorded_warnings_def MEMD_MAX_WARNINGS_def)
  from release_without_record [OF wf ign, of 4096 9 "''main.c''"] nz stray vals wf ign
  show ?thesis by simp
qed

text \<open>
  After 1000 releases of an address that was never allocated the warning log is full; one
  more such release, not suppressed, records nothing.
\<close>

theorem release_without_record_counterexample:
  "memd_ignore (run init_state (replicate 1000 (Free 4096 8 ''main.c''))) \<noteq> 1 \<and>
   (4096 :: size_t) \<noteq> 0 \<and>
   4096 \<notin> address ` set (live_records
      (memd_data (run init_state (replicate 1000 (Free 4096 8 ''main.c''))))) \<and>
   memd_data (memd_free 4096 9 ''main.c''
      (run init_state (replicate 1000 (Free 4096 8 ''main.c'')))) =
     memd_data (run init_state (replicate 1000 (Free 4096 8 ''main.c'')))"
proof -
  let ?S = "run init_state (replicate 1000 (Free 4096 8 ''main.c''))"
  have nz: "(4096 :: size_t) \<noteq> 0" by simp
  note S = stray_frees_state [OF nz, of 1000 8 "''main.c''"]
  have full: "\<not> warning_count (memd_data ?S) < MEMD_MAX_WARNINGS"
    using S by (simp add: MEMD_MAX_WARNINGS_def)
  have stray: "4096 \<notin> address ` set (live_records (memd_data ?S))"
    using S by (simp add: live_records_def zero_Mem_def)
  have len: "length (mem (memd_data ?S)) = MEMD_MAX_ALLOCATIONS"
    using S by simp
  have "memd_free 4096 9 ''main.c'' ?S = ?S\<lparr>memd_data := memd_data ?S\<rparr>"
    using S erase_alloc_untracked [OF len nz stray, of 9 "''main.c''"] WARN_full [OF full]
    by (simp add: memd_free_def)
  with S stray show ?thesis by simp
qed

section \<open>Insertion\<close>

text \<open>
  C5 (amended). \<^verbatim>\<open>_insert\<close> with address 0 leaves the record table and the totals as
  they were and records the warning ``Memory allocation failed''; with a nonzero address and
  no empty slot it leaves them as they were and records ``Max allocations reached'', the
  allocation returns the raw pointer all the same, and whatever calls follow, the table and
  the totals (so the Detailed Report) are those of the run without that allocation. In
  both cases the warning is recorded only while the log holds fewer than
  \<open>MEMD_MAX_WARNINGS\<close> warnings; a full log is left as it is. Otherwise \<^verbatim>\<open>_insert\<close>
  fills the first empty slot with the address, size, line and file, and adds the size to
  \<^verbatim>\<open>total_allocated_size\<close>.
\<close>

theorem insert_alloc_cases:
  assumes "wf_Data (memd_data s)" and "memd_ignore s \<noteq> 1"
  shows
    "(mem (insert_alloc 0 sz ln fl (memd_data s)) = mem (memd_data s) \<and>
      total_allocated_size (insert_alloc 0 sz ln fl (memd_data s))
        = total_allocated_size (memd_data s) \<and>
      total_free_size (insert_alloc 0 sz ln fl (memd_data s)) = total_free_size (memd_data s) \<and>
      (if warning_count (memd_data s) < MEMD_MAX_WARNINGS
       then recorded_warnings (insert_alloc 0 sz ln fl (memd_data s)) =
              recorded_warnings (memd_data s) @
                [\<lparr>message = ''Memory allocation failed'', wline = ln, wfile = fl\<rparr>]
       else insert_alloc 0 sz ln fl (memd_data s) = memd_data s)) \<and>
     (a \<noteq> 0 \<and> 0 \<notin> address ` set (mem (memd_data s)) \<longrightarrow>
        mem (insert_alloc a sz ln fl (memd_data s)) = mem (memd_data s) \<and>
        total_allocated_size (insert_alloc a sz ln fl (memd_data s))
          = total_allocated_size (memd_data s) \<and>
        total_free_size (insert_alloc a sz ln fl (memd_data s)) = total_free_size (memd_data s) \<and>
        (if warning_count (memd_data s) < MEMD_MAX_WARNINGS
         then recorded_warnings (insert_alloc a sz ln fl (memd_data s)) =
                recorded_warnings (memd_data s) @
                  [\<lparr>message = ''Max allocations reached'', wline = ln, wfile = fl\<rparr>]
         else insert_alloc a sz ln fl (memd_data s) = memd_data s) \<and>
        fst (memd_malloc a sz ln fl s) = a \<and>
        memd_data (snd (memd_malloc a sz ln fl s)) = insert_alloc a sz ln fl (memd_data s) \<and>
        live_records (memd_data (run (snd (memd_malloc a sz ln fl s)) ops))
          = live_records (memd_data (run s ops)) \<and>
        total_allocated_size (memd_data (run (snd (memd_malloc a sz ln fl s)) ops))
          = total_allocated_size (memd_data (run s ops)) \<and>
        total_free_size (memd_data (run (snd (memd_malloc a sz ln fl s)) ops))
          = total_free_size (memd_data (run s ops))) \<and>
     (a \<noteq> 0 \<and> 0 \<in> address ` set (mem (memd_data s)) \<longrightarrow>
        (\<exists>i. i < MEMD_MAX_ALLOCATIONS \<and> address (mem (memd_data s) ! i) = 0 \<and>
             (\<forall>j. j < i \<longrightarrow> address (mem (memd_data s) ! j) \<noteq> 0) \<and>
             insert_alloc a sz ln fl (memd_data s) =
               (memd_data s)
                 \<lparr>mem := (mem (memd_data s))
                           [i := \<lparr>address = a, msize = sz, mline = ln, mfile = fl\<rparr>],
                  total_allocated_size := total_allocated_size (memd_data s) + sz\<rparr>))"
proof -
  let ?d = "memd_data s"
  have len: "length (mem ?d) = MEMD_MAX_ALLOCATIONS"
    using assms(1) by (simp add: wf_Data_def)
  have null: "insert_alloc 0 sz ln fl ?d = WARN ''Memory allocation failed'' ln fl ?d"
    by (simp add: insert_alloc_def)
  have A: "mem (insert_alloc 0 sz ln fl ?d) = mem ?d \<and>
      total_allocated_size (insert_alloc 0 sz ln fl ?d) = total_allocated_size ?d \<and>
      total_free_size (insert_alloc 0 sz ln fl ?d) = total_free_size ?d \<and>
      (if warning_count ?d < MEMD_MAX_WARNINGS
       then recorded_warnings (insert_alloc 0 sz ln fl ?d) =
              recorded_warnings ?d @
                [\<lparr>message = ''Memory allocation failed'', wline = ln, wfile = fl\<rparr>]
       else insert_alloc 0 sz ln fl ?d = ?d)"
    unfolding null
    using WARN_effect [OF assms(1), of "''Memory allocation failed''" ln fl] by simp
  have B: "mem (insert_alloc a sz ln fl ?d) = mem ?d \<and>
        total_allocated_size (insert_alloc a sz ln fl ?d) = total_allocated_size ?d \<and>
        total_free_size (insert_alloc a sz ln fl ?d) = total_free_size ?d \<and>
        (if warning_count ?d < MEMD_MAX_WARNINGS
         then recorded_warnings (insert_alloc a sz ln fl ?d) =
                recorded_warnings ?d @
                  [\<lparr>message = ''Max allocations reached'', wline = ln, wfile = fl\<rparr>]
         else insert_alloc a sz ln fl ?d = ?d) \<and>
        fst (memd_malloc a sz ln fl s) = a \<and>
        memd_data (snd (memd_malloc a sz ln fl s)) = insert_alloc a sz ln fl ?d \<and>
        live_records (memd_data (run (snd (memd_malloc a sz ln fl s)) ops))
          = live_records (memd_data (run s ops)) \<and>
        total_allocated_size (memd_data (run (snd (memd_malloc a sz ln fl s)) ops))
          = total_allocated_size (memd_data (run s ops)) \<and>
        total_free_size (memd_data (run (snd (memd_malloc a sz ln fl s)) ops))
          = total_free_size (memd_data (run s ops))"
    if "a \<noteq> 0" and "0 \<notin> address ` set (mem ?d)"
  proof -
    have full: "insert_alloc a sz ln fl ?d = WARN ''Max allocations reached'' ln fl ?d"
      using len that by (rule insert_alloc_full)
    have m: "memd_malloc a sz ln fl s =
        (a, s\<lparr>heap_calls := heap_calls s @ [Real_malloc sz a],
              memd_data := WARN ''Max allocations reached'' ln fl ?d\<rparr>)"
      using assms(2) full by (simp add: memd_malloc_tracked)
    have "same_registry (snd (memd_malloc a sz ln fl s)) s"
      unfolding m by (simp add: same_registry_def)
    then have "same_registry (run (snd (memd_malloc a sz ln fl s)) ops) (run s ops)"
      by (rule same_registry_run)
    then have future: "live_records (memd_data (run (snd (memd_malloc a sz ln fl s)) ops))
          = live_records (memd_data (run s ops)) \<and>
        total_allocated_size (memd_data (run (snd (memd_malloc a sz ln fl s)) ops))
          = total_allocated_size (memd_data (run s ops)) \<and>
        total_free_size (memd_data (run (snd (memd_malloc a sz ln fl s)) ops))
          = total_free_size (memd_data (run s ops))"
      by (simp add: same_registry_def live_records_def)
    have now: "fst (memd_malloc a sz ln fl s) = a \<and>
        memd_data (snd (memd_malloc a sz ln fl s)) = insert_alloc a sz ln fl ?d"
      unfolding m full by simp
    have w: "mem (insert_alloc a sz ln fl ?d) = mem ?d \<and>
        total_allocated_size (insert_alloc a sz ln fl ?d) = total_allocated_size ?d \<and>
        total_free_size (insert_alloc a sz ln fl ?d) = total_free_size ?d \<and>
        (if warning_count ?d < MEMD_MAX_WARNINGS
         then recorded_warnings (insert_alloc a sz ln fl ?d) =
                recorded_warnings ?d @
                  [\<lparr>message = ''Max allocations reached'', wline = ln, wfile = fl\<rparr>]
         else insert_alloc a sz ln fl ?d = ?d)"
      unfolding full
      using WARN_effect [OF assms(1), of "''Max allocations reached''" ln fl] by simp
    from w now future show ?thesis by blast
  qed
  have C: "\<exists>i. i < MEMD_MAX_ALLOCATIONS \<and> address (mem ?d ! i) = 0 \<and>
             (\<forall>j. j < i \<longrightarrow> address (mem ?d ! j) \<noteq> 0) \<and>
             insert_alloc a sz ln fl ?d =
               ?d\<lparr>mem := (mem ?d)[i := \<lparr>address = a, msize = sz, mline = ln, mfile = fl\<rparr>],
                  total_allocated_size := total_allocated_size ?d + sz\<rparr>"
    if "a \<noteq> 0" and "0 \<in> address ` set (mem ?d)"
    using insert_alloc_slot [OF len that, of sz ln fl] by blast
  from A B C show ?thesis by blast
qed

theorem insert_alloc_cases_witness:
  "wf_Data (memd_data (run init_state (replicate 1000 (Malloc 4096 8 1 ''a.c'')))) \<and>
   memd_ignore (run init_state (replicate 1000 (Malloc 4096 8 1 ''a.c''))) \<noteq> 1 \<and>
   (8192 :: size_t) \<noteq> 0 \<and>
   0 \<notin> address ` set (mem (memd_data (run init_state (replicate 1000 (Malloc 4096 8 1 ''a.c''))))) \<and>
   fst (memd_malloc 8192 16 2 ''a.c'' (run init_state (replicate 1000 (Malloc 4096 8 1 ''a.c''))))
     = 8192 \<and>
   mem (memd_data (snd (memd_malloc 8192 16 2 ''a.c''
       (run init_state (replicate 1000 (Malloc 4096 8 1 ''a.c''))))))
     = replicate 1000 \<lparr>address = 4096, msize = 8, mline = 1, mfile = ''a.c''\<rparr> \<and>
   recorded_warnings (memd_data (snd (memd_malloc 8192 16 2 ''a.c''
       (run init_state (replicate 1000 (Malloc 4096 8 1 ''a.c''))))))
     = [\<lparr>message = ''Max allocations reached'', wline = 2, wfile = ''a.c''\<rparr>] \<and>
   wf_Data (memd_data init_state) \<and> memd_ignore init_state \<noteq> 1 \<and>
   0 \<in> address ` set (mem (memd_data init_state)) \<and>
   insert_alloc 8192 16 2 ''a.c'' (memd_data init_state) =
     (memd_data init_state)
       \<lparr>mem := (mem (memd_data init_state))
                 [0 := \<lparr>address = 8192, msize = 16, mline = 2, mfile = ''a.c''\<rparr>],
        total_allocated_size := 16\<rparr>"
proof -
  let ?S = "run init_state (replicate 1000 (Malloc 4096 8 1 ''a.c''))"
  have nz: "(4096 :: size_t) \<noteq> 0" "(8192 :: size_t) \<noteq> 0" by simp_all
  have S: "memd_ignore ?S = 0" "wf_Data (memd_data ?S)"
    "mem (memd_data ?S) = replicate 1000 \<lparr>address = 4096, msize = 8, mline = 1, mfile = ''a.c''\<rparr>"
    "warning_count (memd_data ?S) = 0"
    using fill_state [OF nz(1), of 1000 8 1 "''a.c''"]
    by (simp_all add: MEMD_MAX_ALLOCATIONS_def)
  have ign: "memd_ignore ?S \<noteq> 1" using S(1) by simp
  have full: "0 \<notin> address ` set (mem (memd_data ?S))"
    unfolding S(3) by simp
  have room: "warning_count (memd_data ?S) < MEMD_MAX_WARNINGS"
    "recorded_warnings (memd_data ?S) = []"
    using S(4) by (simp_all add: MEMD_MAX_WARNINGS_def recorded_warnings_def)
  have first: "fst (memd_malloc 8192 16 2 ''a.c'' ?S) = 8192 \<and>
      mem (memd_data (snd (memd_malloc 8192 16 2 ''a.c'' ?S))) =
        replicate 1000 \<lparr>address = 4096, msize = 8, mline = 1, mfile = ''a.c''\<rparr> \<and>
      recorded_warnings (memd_data (snd (memd_malloc 8192 16 2 ''a.c'' ?S))) =
        [\<lparr>message = ''Max allocations reached'', wline = 2, wfile = ''a.c''\<rparr>]"
    using insert_alloc_cases [OF S(2) ign, of 16 2 "''a.c''" 8192 "[]"] nz(2) full room S(3)
    by simp
  have wf0: "wf_Data (memd_data init_state)"
    by (simp add: init_state_def wf_Data_init)
  have ign0: "memd_ignore init_state \<noteq> 1"
    by (simp add: init_state_def)
  have slot0: "address (mem (memd_data init_state) ! 0) = 0"
    "total_allocated_size (memd_data init_state) = 0"
    by (simp_all add: init_state_def MEMD_Data_init_def MEMD_MAX_ALLOCATIONS_def zero_Mem_def)
  have empty: "0 \<in> address ` set (mem (memd_data init_state))"
    by (simp add: init_state_def MEMD_Data_init_def MEMD_MAX_ALLOCATIONS_def zero_Mem_def)
  from insert_alloc_cases [OF wf0 ign0, of 16 2 "''a.c''" 8192 "[]"] nz(2) empty
  obtain i where i: "\<forall>j. j < i \<longrightarrow> address (mem (memd_data init_state) ! j) \<noteq> 0"
    and ins: "insert_alloc 8192 16 2 ''a.c'' (memd_data init_state) =
     (memd_data init_state)
       \<lparr>mem := (mem (memd_data init_state))
                 [i := \<lparr>address = 8192, msize = 16, mline = 2, mfile = ''a.c''\<rparr>],
        total_allocated_size := total_allocated_size (memd_data init_state) + 16\<rparr>"
    by blast
  have "i = 0"
    using i slot0(1) by (cases "i = 0") auto
  with ins slot0(2) have second: "insert_alloc 8192 16 2 ''a.c'' (memd_data init_state) =
     (memd_data init_state)
       \<lparr>mem := (mem (memd_data init_state))
                 [0 := \<lparr>address = 8192, msize = 16, mline = 2, mfile = ''a.c''\<rparr>],
        total_allocated_size := 16\<rparr>"
    by simp
  from S(2) ign nz(2) full first wf0 ign0 empty second show ?thesis by blast
qed

text \<open>
  With a full warning log (after 1000 releases of an address that was never allocated),
  \<^verbatim>\<open>_insert\<close> called with address 0 records no warning.
\<close>

theorem insert_alloc_cases_counterexample:
  "warning_count (memd_data (run init_state (replicate 1000 (Free 4096 8 ''main.c'')))) = 1000 \<and>
   insert_alloc 0 100 9 ''main.c''
      (memd_data (run init_state (replicate 1000 (Free 4096 8 ''main.c'')))) =
     memd_data (run init_state (replicate 1000 (Free 4096 8 ''main.c'')))"
proof -
  let ?S = "run init_state (replicate 1000 (Free 4096 8 ''main.c''))"
  have nz: "(4096 :: size_t) \<noteq> 0" by simp
  note S = stray_frees_state [OF nz, of 1000 8 "''main.c''"]
  have count: "warning_count (memd_data ?S) = 1000"
    using S by (simp add: MEMD_MAX_WARNINGS_def)
  then have full: "\<not> warning_count (memd_data ?S) < MEMD_MAX_WARNINGS"
    by (simp add: MEMD_MAX_WARNINGS_def)
  have "insert_alloc 0 100 9 ''main.c'' (memd_data ?S) = memd_data ?S"
    using WARN_full [OF full] by (simp add: insert_alloc_def)
  with count show ?thesis by simp
qed

lemma erase_alloc_tracked:
  assumes "length (mem d) = MEMD_MAX_ALLOCATIONS" and "a \<noteq> 0"
    and "a \<in> address ` set (mem d)"
  shows "\<exists>i. find_by_address d a = Some i \<and> i < MEMD_MAX_ALLOCATIONS \<and>
             address (mem d ! i) = a \<and> (\<forall>j. j < i \<longrightarrow> address (mem d ! j) \<noteq> a) \<and>
             erase_alloc a ln fl d =
               (0, d\<lparr>mem := (mem d)[i := (mem d ! i)\<lparr>address := 0\<rparr>],
                     total_free_size := total_free_size d + msize (mem d ! i)\<rparr>)"
proof -
  have "find_by_address d a \<noteq> None"
    using assms by (simp add: find_by_address_None_set)
  then obtain i where i: "find_by_address d a = Some i" by auto
  then have "i < MEMD_MAX_ALLOCATIONS \<and> address (mem d ! i) = a \<and>
      (\<forall>j. j < i \<longrightarrow> address (mem d ! j) \<noteq> a)"
    by (simp add: find_by_address_Some_iff)
  moreover have "erase_alloc a ln fl d =
               (0, d\<lparr>mem := (mem d)[i := (mem d ! i)\<lparr>address := 0\<rparr>],
                     total_free_size := total_free_size d + msize (mem d ! i)\<rparr>)"
    using i assms(2) by (simp add: erase_alloc_def)
  ultimately show ?thesis using i by blast
qed

section \<open>Failed allocations\<close>

text \<open>
  C7 (amended). When the real allocation returns \<^verbatim>\<open>NULL\<close> and tracking is not suppressed,
  nothing is inserted into the record table and the totals do not change. Allocate records
  the warning ``Memory allocation failed'' (while the log has room; a full log is left as
  it is). Zero-allocate does not call \<^verbatim>\<open>_insert\<close> for a \<^verbatim>\<open>NULL\<close> result: it records no
  warning and leaves \<^verbatim>\<open>MEMD_Data\<close> as it was.
\<close>

theorem failed_allocation_tracking:
  assumes "wf_Data (memd_data s)" and "memd_ignore s \<noteq> 1"
  shows
    "fst (memd_malloc 0 sz ln fl s) = 0 \<and>
     mem (memd_data (snd (memd_malloc 0 sz ln fl s))) = mem (memd_data s) \<and>
     total_allocated_size (memd_data (snd (memd_malloc 0 sz ln fl s)))
       = total_allocated_size (memd_data s) \<and>
     total_free_size (memd_data (snd (memd_malloc 0 sz ln fl s)))
       = total_free_size (memd_data s) \<and>
     (if warning_count (memd_data s) < MEMD_MAX_WARNINGS
      then warning_count (memd_data (snd (memd_malloc 0 sz ln fl s)))
             = warning_count (memd_data s) + 1 \<and>
           recorded_warnings (memd_data (snd (memd_malloc 0 sz ln fl s))) =
             recorded_warnings (memd_data s) @
               [\<lparr>message = ''Memory allocation failed'', wline = ln, wfile = fl\<rparr>]
      else memd_data (snd (memd_malloc 0 sz ln fl s)) = memd_data s) \<and>
     fst (memd_calloc 0 num sz ln fl s) = 0 \<and>
     memd_data (snd (memd_calloc 0 num sz ln fl s)) = memd_data s"
proof -
  have m: "memd_malloc 0 sz ln fl s =
      (0, s\<lparr>heap_calls := heap_calls s @ [Real_malloc sz 0],
            memd_data := WARN ''Memory allocation failed'' ln fl (memd_data s)\<rparr>)"
    using assms(2) by (simp add: memd_malloc_tracked insert_alloc_def)
  have c: "memd_calloc 0 num sz ln fl s =
      (0, s\<lparr>heap_calls := heap_calls s @ [Real_calloc num sz 0]\<rparr>)"
    by (simp add: memd_calloc_def Let_def)
  show ?thesis
    unfolding m c
    using WARN_effect [OF assms(1), of "''Memory allocation failed''" ln fl] by simp
qed

theorem failed_allocation_tracking_witness:
  "wf_Data (memd_data init_state) \<and> memd_ignore init_state \<noteq> 1 \<and>
   fst (memd_malloc 0 100 8 ''main.c'' init_state) = 0 \<and>
   mem (memd_data (snd (memd_malloc 0 100 8 ''main.c'' init_state))) = mem MEMD_Data_init \<and>
   recorded_warnings (memd_data (snd (memd_malloc 0 100 8 ''main.c'' init_state))) =
     [\<lparr>message = ''Memory allocation failed'', wline = 8, wfile = ''main.c''\<rparr>] \<and>
   memd_data (snd (memd_calloc 0 10 100 8 ''main.c'' init_state)) = MEMD_Data_init"
proof -
  have wf: "wf_Data (memd_data init_state)"
    by (simp add: init_state_def wf_Data_init)
  have ign: "memd_ignore init_state \<noteq> 1"
    by (simp add: init_state_def)
  have vals: "memd_data init_state = MEMD_Data_init"
    "warning_count (memd_data init_state) < MEMD_MAX_WARNINGS"
    "recorded_warnings (memd_data init_state) = []"
    by (simp_all add: init_state_def MEMD_Data_init_def recorded_warnings_def MEMD_MAX_WARNINGS_def)
  from failed_allocation_tracking [OF wf ign, of 100 8 "''main.c''" 10] wf ign vals
  show ?thesis by simp
qed

text \<open>
  A zero-allocation whose real \<^verbatim>\<open>calloc\<close> returns \<^verbatim>\<open>NULL\<close>, not suppressed, records no
  warning; and with a full warning log a failed allocate records none either.
\<close>

theorem failed_allocation_tracking_counterexample:
  "memd_ignore init_state \<noteq> 1 \<and>
   fst (memd_calloc 0 10 100 8 ''main.c'' init_state) = 0 \<and>
   warning_count (memd_data (snd (memd_calloc 0 10 100 8 ''main.c'' init_state))) = 0 \<and>
   memd_data (snd (memd_calloc 0 10 100 8 ''main.c'' init_state)) = memd_data init_state \<and>
   memd_ignore (run init_state (replicate 1000 (Free 4096 8 ''main.c''))) \<noteq> 1 \<and>
   memd_data (snd (memd_malloc 0 100 9 ''main.c''
       (run init_state (replicate 1000 (Free 4096 8 ''main.c''))))) =
     memd_data (run init_state (replicate 1000 (Free 4096 8 ''main.c'')))"
proof -
  let ?S = "run init_state (replicate 1000 (Free 4096 8 ''main.c''))"
  have nz: "(4096 :: size_t) \<noteq> 0" by simp
  note S = stray_frees_state [OF nz, of 1000 8 "''main.c''"]
  have full: "\<not> warning_count (memd_data ?S) < MEMD_MAX_WARNINGS"
    using S by (simp add: MEMD_MAX_WARNINGS_def)
  have ign: "memd_ignore ?S \<noteq> 1" using S by simp
  have m: "memd_data (snd (memd_malloc 0 100 9 ''main.c'' ?S)) = memd_data ?S"
    using WARN_full [OF full] ign by (simp add: memd_malloc_tracked insert_alloc_def)
  have c: "memd_ignore init_state \<noteq> 1 \<and>
   fst (memd_calloc 0 10 100 8 ''main.c'' init_state) = 0 \<and>
   warning_count (memd_data (snd (memd_calloc 0 10 100 8 ''main.c'' init_state))) = 0 \<and>
   memd_data (snd (memd_calloc 0 10 100 8 ''main.c'' init_state)) = memd_data init_state"
    by (simp add: memd_calloc_def Let_def init_state_def MEMD_Data_init_def)
  from c ign m show ?thesis by blast
qed

section \<open>Resize\<close>

text \<open>
  C6. \<^verbatim>\<open>_memd_realloc\<close>: with a \<^verbatim>\<open>NULL\<close> pointer it is \<^verbatim>\<open>_memd_malloc\<close>; with a non-null
  pointer and size 0 it is \<^verbatim>\<open>_memd_free\<close> and returns \<^verbatim>\<open>NULL\<close>; otherwise it calls the real
  \<^verbatim>\<open>realloc\<close> and returns its result. If that result is not \<^verbatim>\<open>NULL\<close> and tracking is
  not suppressed, \<^verbatim>\<open>MEMD_Data\<close> becomes what \<^verbatim>\<open>_erase\<close> of the old address followed by
  \<^verbatim>\<open>_insert\<close> of the new address and size make of it; when the old address was tracked,
  the first record with that address is erased (its size is added to
  \<^verbatim>\<open>total_free_size\<close>), a live record with the new address, the new size and the call's
  line and file is in the table, the size is added to \<^verbatim>\<open>total_allocated_size\<close>, and no
  warning is recorded. If the real \<^verbatim>\<open>realloc\<close> returns \<^verbatim>\<open>NULL\<close>, \<^verbatim>\<open>MEMD_Data\<close> is
  unchanged: the old record stays.
\<close>

theorem memd_realloc_cases:
  assumes "wf_Data (memd_data s)"
  shows
    "memd_realloc ret 0 sz ln fl s = memd_malloc ret sz ln fl s \<and>
     (ptr \<noteq> 0 \<longrightarrow> memd_realloc ret ptr 0 ln fl s = (0, memd_free ptr ln fl s)) \<and>
     (ptr \<noteq> 0 \<and> sz \<noteq> 0 \<longrightarrow>
        fst (memd_realloc ret ptr sz ln fl s) = ret \<and>
        heap_calls (snd (memd_realloc ret ptr sz ln fl s))
          = heap_calls s @ [Real_realloc ptr sz ret]) \<and>
     (ptr \<noteq> 0 \<and> sz \<noteq> 0 \<and> ret \<noteq> 0 \<and> memd_ignore s \<noteq> 1 \<longrightarrow>
        memd_data (snd (memd_realloc ret ptr sz ln fl s)) =
          insert_alloc ret sz ln fl (snd (erase_alloc ptr ln fl (memd_data s))) \<and>
        (ptr \<in> address ` set (live_records (memd_data s)) \<longrightarrow>
           \<lparr>address = ret, msize = sz, mline = ln, mfile = fl\<rparr>
              \<in> set (live_records (memd_data (snd (memd_realloc ret ptr sz ln fl s)))) \<and>
           total_allocated_size (memd_data (snd (memd_realloc ret ptr sz ln fl s)))
              = total_allocated_size (memd_data s) + sz \<and>
           (\<exists>i. i < MEMD_MAX_ALLOCATIONS \<and> address (mem (memd_data s) ! i) = ptr \<and>
                (\<forall>j. j < i \<longrightarrow> address (mem (memd_data s) ! j) \<noteq> ptr) \<and>
                total_free_size (memd_data (snd (memd_realloc ret ptr sz ln fl s)))
                  = total_free_size (memd_data s) + msize (mem (memd_data s) ! i)) \<and>
           warnings (memd_data (snd (memd_realloc ret ptr sz ln fl s))) = warnings (memd_data s) \<and>
           warning_count (memd_data (snd (memd_realloc ret ptr sz ln fl s)))
              = warning_count (memd_data s))) \<and>
     (ptr \<noteq> 0 \<and> sz \<noteq> 0 \<and> ret = 0 \<longrightarrow>
        memd_data (snd (memd_realloc ret ptr sz ln fl s)) = memd_data s)"
proof -
  let ?d = "memd_data s"
  let ?s' = "snd (memd_realloc ret ptr sz ln fl s)"
  let ?new = "\<lparr>address = ret, msize = sz, mline = ln, mfile = fl\<rparr>"
  have len: "length (mem ?d) = MEMD_MAX_ALLOCATIONS"
    using assms by (simp add: wf_Data_def)
  have A: "memd_realloc ret 0 sz ln fl s = memd_malloc ret sz ln fl s"
    by (simp add: memd_realloc_def)
  have B: "memd_realloc ret ptr 0 ln fl s = (0, memd_free ptr ln fl s)" if "ptr \<noteq> 0"
    using that by (simp add: memd_realloc_def)
  have C: "fst (memd_realloc ret ptr sz ln fl s) = ret \<and>
      heap_calls ?s' = heap_calls s @ [Real_realloc ptr sz ret]"
    if "ptr \<noteq> 0" "sz \<noteq> 0"
    using that by (simp add: memd_realloc_def Let_def)
  have D1: "memd_data ?s' = insert_alloc ret sz ln fl (snd (erase_alloc ptr ln fl ?d))"
    if "ptr \<noteq> 0" "sz \<noteq> 0" "ret \<noteq> 0" "memd_ignore s \<noteq> 1"
    using that by (simp add: memd_realloc_def Let_def)
  have D2: "?new \<in> set (live_records (memd_data ?s')) \<and>
      total_allocated_size (memd_data ?s') = total_allocated_size ?d + sz \<and>
      (\<exists>i. i < MEMD_MAX_ALLOCATIONS \<and> address (mem ?d ! i) = ptr \<and>
           (\<forall>j. j < i \<longrightarrow> address (mem ?d ! j) \<noteq> ptr) \<and>
           total_free_size (memd_data ?s') = total_free_size ?d + msize (mem ?d ! i)) \<and>
      warnings (memd_data ?s') = warnings ?d \<and>
      warning_count (memd_data ?s') = warning_count ?d"
    if h: "ptr \<noteq> 0" "sz \<noteq> 0" "ret \<noteq> 0" "memd_ignore s \<noteq> 1"
      and tracked: "ptr \<in> address ` set (live_records ?d)"
  proof -
    have "ptr \<in> address ` set (mem ?d)"
      using tracked by (simp add: live_address_iff)
    from erase_alloc_tracked [OF len h(1) this, of ln fl]
    obtain i where i: "i < MEMD_MAX_ALLOCATIONS" "address (mem ?d ! i) = ptr"
      "\<forall>j. j < i \<longrightarrow> address (mem ?d ! j) \<noteq> ptr"
      and e: "erase_alloc ptr ln fl ?d =
        (0, ?d\<lparr>mem := (mem ?d)[i := (mem ?d ! i)\<lparr>address := 0\<rparr>],
               total_free_size := total_free_size ?d + msize (mem ?d ! i)\<rparr>)"
      by blast
    let ?d1 = "?d\<lparr>mem := (mem ?d)[i := (mem ?d ! i)\<lparr>address := 0\<rparr>],
               total_free_size := total_free_size ?d + msize (mem ?d ! i)\<rparr>"
    have len1: "length (mem ?d1) = MEMD_MAX_ALLOCATIONS"
      using len by simp
    have "address (mem ?d1 ! i) = 0"
      using i(1) len by simp
    then have "0 \<in> address ` set (mem ?d1)"
      using i(1) len1 by (metis imageI nth_mem)
    from insert_alloc_slot [OF len1 h(3) this, of sz ln fl]
    obtain k where k: "k < MEMD_MAX_ALLOCATIONS"
      and ins: "insert_alloc ret sz ln fl ?d1 =
        ?d1\<lparr>mem := (mem ?d1)[k := ?new],
            total_allocated_size := total_allocated_size ?d1 + sz\<rparr>"
      by blast
    have d': "memd_data ?s' =
        ?d1\<lparr>mem := (mem ?d1)[k := ?new], total_allocated_size := total_allocated_size ?d1 + sz\<rparr>"
      using D1 [OF h] e ins by simp
    have "(mem ?d1)[k := ?new] ! k = ?new"
      using k len1 by simp
    then have "?new \<in> set ((mem ?d1)[k := ?new])"
      using k len1 by (metis length_list_update nth_mem)
    then have live: "?new \<in> set (live_records (memd_data ?s'))"
      unfolding d' using h(3) by (simp add: live_records_def)
    have rest: "total_allocated_size (memd_data ?s') = total_allocated_size ?d + sz \<and>
        total_free_size (memd_data ?s') = total_free_size ?d + msize (mem ?d ! i) \<and>
        warnings (memd_data ?s') = warnings ?d \<and>
        warning_count (memd_data ?s') = warning_count ?d"
      unfolding d' by simp
    from live rest i show ?thesis by blast
  qed
  have E: "memd_data ?s' = ?d" if "ptr \<noteq> 0" "sz \<noteq> 0" "ret = 0"
    using that by (simp add: memd_realloc_def Let_def)
  from A B C D1 D2 E show ?thesis by blast
qed

theorem memd_realloc_cases_witness:
  "wf_Data (memd_data (run init_state [Malloc 4096 100 8 ''main.c''])) \<and>
   memd_ignore (run init_state [Malloc 4096 100 8 ''main.c'']) \<noteq> 1 \<and>
   (4096 :: size_t) \<noteq> 0 \<and> (200 :: size_t) \<noteq> 0 \<and> (8192 :: size_t) \<noteq> 0 \<and>
   4096 \<in> address ` set (live_records (memd_data (run init_state [Malloc 4096 100 8 ''main.c'']))) \<and>
   fst (memd_realloc 8192 4096 200 9 ''main.c'' (run init_state [Malloc 4096 100 8 ''main.c'']))
     = 8192 \<and>
   \<lparr>address = 8192, msize = 200, mline = 9, mfile = ''main.c''\<rparr>
     \<in> set (live_records (memd_data (snd (memd_realloc 8192 4096 200 9 ''main.c''
          (run init_state [Malloc 4096 100 8 ''main.c''])))))  \<and>
   total_allocated_size (memd_data (snd (memd_realloc 8192 4096 200 9 ''main.c''
          (run init_state [Malloc 4096 100 8 ''main.c'']))))
     = total_allocated_size (memd_data (run init_state [Malloc 4096 100 8 ''main.c''])) + 200 \<and>
   memd_realloc 8192 0 200 9 ''main.c'' (run init_state [Malloc 4096 100 8 ''main.c''])
     = memd_malloc 8192 200 9 ''main.c'' (run init_state [Malloc 4096 100 8 ''main.c'']) \<and>
   memd_realloc 8192 4096 0 9 ''main.c'' (run init_state [Malloc 4096 100 8 ''main.c''])
     = (0, memd_free 4096 9 ''main.c'' (run init_state [Malloc 4096 100 8 ''main.c''])) \<and>
   memd_data (snd (memd_realloc 0 4096 200 9 ''main.c''
          (run init_state [Malloc 4096 100 8 ''main.c''])))
     = memd_data (run init_state [Malloc 4096 100 8 ''main.c''])"
proof -
  let ?S = "run init_state [Malloc 4096 100 8 ''main.c'']"
  have nz: "(4096 :: size_t) \<noteq> 0" "(200 :: size_t) \<noteq> 0" "(8192 :: size_t) \<noteq> 0"
    by simp_all
  have "1 \<le> MEMD_MAX_ALLOCATIONS" by (simp add: MEMD_MAX_ALLOCATIONS_def)
  from fill_state [OF nz(1) this, of 100 8 "''main.c''"]
  have S: "memd_ignore ?S = 0" "wf_Data (memd_data ?S)"
    "mem (memd_data ?S) = \<lparr>address = 4096, msize = 100, mline = 8, mfile = ''main.c''\<rparr>
        # replicate (MEMD_MAX_ALLOCATIONS - 1) zero_Mem"
    by simp_all
  have ign: "memd_ignore ?S \<noteq> 1" using S(1) by simp
  have tracked: "4096 \<in> address ` set (live_records (memd_data ?S))"
    by (simp add: live_address_iff S(3))
  note t1 = memd_realloc_cases [OF S(2), of 8192 200 9 "''main.c''" 4096]
  note t2 = memd_realloc_cases [OF S(2), of 8192 0 9 "''main.c''" 4096]
  note t3 = memd_realloc_cases [OF S(2), of 0 200 9 "''main.c''" 4096]
  from t1 nz ign tracked have a: "fst (memd_realloc 8192 4096 200 9 ''main.c'' ?S) = 8192 \<and>
      \<lparr>address = 8192, msize = 200, mline = 9, mfile = ''main.c''\<rparr>
        \<in> set (live_records (memd_data (snd (memd_realloc 8192 4096 200 9 ''main.c'' ?S)))) \<and>
      total_allocated_size (memd_data (snd (memd_realloc 8192 4096 200 9 ''main.c'' ?S)))
        = total_allocated_size (memd_data ?S) + 200 \<and>
      memd_realloc 8192 0 200 9 ''main.c'' ?S = memd_malloc 8192 200 9 ''main.c'' ?S"
    by blast
  from t2 nz have b: "memd_realloc 8192 4096 0 9 ''main.c'' ?S = (0, memd_free 4096 9 ''main.c'' ?S)"
    by blast
  from t3 nz have c: "memd_data (snd (memd_realloc 0 4096 200 9 ''main.c'' ?S)) = memd_data ?S"
    by blast
  from S(2) ign nz tracked a b c show ?thesis by blast
qed

section \<open>Balance of the totals\<close>

lemma sum_filter_update:
  fixes f :: "'a \<Rightarrow> 'b::comm_monoid_add"
  assumes "i < length xs"
  shows "sum_list (map f (filter P (xs[i := y]))) + (if P (xs ! i) then f (xs ! i) else 0) =
         sum_list (map f (filter P xs)) + (if P y then f y else 0)"
  using assms
proof (induction xs arbitrary: i)
  case Nil
  then show ?case by simp
next
  case (Cons x xs)
  show ?case
  proof (cases i)
    case 0
    then show ?thesis by (simp add: ac_simps)
  next
    case (Suc k)
    with Cons.prems have "k < length xs" by simp
    note IH = Cons.IH [OF this]
    have l: "sum_list (map f (filter P ((x # xs)[i := y]))) =
        (if P x then f x else 0) + sum_list (map f (filter P (xs[k := y])))"
      using Suc by simp
    have r: "sum_list (map f (filter P (x # xs))) =
        (if P x then f x else 0) + sum_list (map f (filter P xs))"
      by simp
    have n: "(x # xs) ! i = xs ! k"
      using Suc by simp
    show ?thesis
      unfolding l r n by (simp only: add.assoc IH)
  qed
qed

lemma live_total_insert:
  assumes "length (mem d) = MEMD_MAX_ALLOCATIONS"
  shows "live_total (insert_alloc a sz ln fl d) + total_allocated_size d =
           live_total d + total_allocated_size (insert_alloc a sz ln fl d) \<and>
         total_free_size (insert_alloc a sz ln fl d) = total_free_size d"
proof (cases "a \<noteq> 0 \<and> find_by_address d 0 \<noteq> None")
  case False
  then show ?thesis
    by (auto simp: insert_alloc_def live_total_def live_records_def)
next
  case True
  then obtain i where i: "find_by_address d 0 = Some i" by auto
  then have b: "i < length (mem d)" "address (mem d ! i) = 0"
    using assms by (simp_all add: find_by_address_Some_iff)
  from sum_filter_update [OF b(1), of msize "\<lambda>r. address r \<noteq> 0"
      "\<lparr>address = a, msize = sz, mline = ln, mfile = fl\<rparr>"] b(2) True i
  show ?thesis
    by (simp add: insert_alloc_def live_total_def live_records_def ac_simps)
qed

lemma live_total_erase:
  assumes "length (mem d) = MEMD_MAX_ALLOCATIONS"
  shows "live_total (snd (erase_alloc a ln fl d)) + total_free_size (snd (erase_alloc a ln fl d)) =
           live_total d + total_free_size d \<and>
         total_allocated_size (snd (erase_alloc a ln fl d)) = total_allocated_size d"
proof (cases "a \<noteq> 0 \<and> find_by_address d a \<noteq> None")
  case False
  then show ?thesis
    by (auto simp: erase_alloc_def live_total_def live_records_def)
next
  case True
  then obtain i where i: "find_by_address d a = Some i" by auto
  then have b: "i < length (mem d)" "address (mem d ! i) = a"
    using assms by (simp_all add: find_by_address_Some_iff)
  from sum_filter_update [OF b(1), of msize "\<lambda>r. address r \<noteq> 0"
      "(mem d ! i)\<lparr>address := 0\<rparr>"] b(2) True i
  show ?thesis
    by (simp add: erase_alloc_def live_total_def live_records_def ac_simps)
qed

text \<open>The balance of the two totals, in \<^verbatim>\<open>size_t\<close> arithmetic, is kept by every call.\<close>

lemma balance_step:
  assumes "wf_Data (memd_data s)"
    and "total_allocated_size (memd_data s) - total_free_size (memd_data s)
           = live_total (memd_data s)"
  shows "wf_Data (memd_data (step s x)) \<and>
         total_allocated_size (memd_data (step s x)) - total_free_size (memd_data (step s x))
           = live_total (memd_data (step s x))"
proof -
  have len: "length (mem d) = MEMD_MAX_ALLOCATIONS" if "wf_Data d" for d
    using that by (simp add: wf_Data_def)
  have ins: "wf_Data (insert_alloc a sz ln fl d) \<and>
      total_allocated_size (insert_alloc a sz ln fl d) - total_free_size (insert_alloc a sz ln fl d)
        = live_total (insert_alloc a sz ln fl d)"
    if "wf_Data d" "total_allocated_size d - total_free_size d = live_total d"
    for a sz ln fl d
    using that live_total_insert [OF len [OF that(1)], of a sz ln fl] wf_Data_insert [OF that(1)]
    by (simp add: algebra_simps)
  have era: "wf_Data (snd (erase_alloc a ln fl d)) \<and>
      total_allocated_size (snd (erase_alloc a ln fl d)) - total_free_size (snd (erase_alloc a ln fl d))
        = live_total (snd (erase_alloc a ln fl d))"
    if "wf_Data d" "total_allocated_size d - total_free_size d = live_total d"
    for a ln fl d
    using that live_total_erase [OF len [OF that(1)], of a ln fl] wf_Data_erase [OF that(1)]
    by (simp add: algebra_simps)
  show ?thesis
  proof (cases x)
    case (Malloc ret sz ln fl)
    then show ?thesis using assms ins [OF assms] by (simp add: memd_malloc_def Let_def)
  next
    case (Calloc ret num sz ln fl)
    then show ?thesis using assms ins [OF assms] by (simp add: memd_calloc_def Let_def)
  next
    case (Free ptr ln fl)
    then show ?thesis using assms era [OF assms] by (simp add: memd_data_free)
  next
    case (Realloc ret ptr sz ln fl)
    have e: "wf_Data (snd (erase_alloc ptr ln fl (memd_data s)))"
       "total_allocated_size (snd (erase_alloc ptr ln fl (memd_data s)))
          - total_free_size (snd (erase_alloc ptr ln fl (memd_data s)))
        = live_total (snd (erase_alloc ptr ln fl (memd_data s)))"
      using era [OF assms] by simp_all
    from Realloc show ?thesis
      using assms ins [OF assms] era [OF assms] ins [OF e]
      by (simp add: memd_realloc_def memd_malloc_def memd_data_free Let_def)
  next
    case Pause
    then show ?thesis using assms by (simp add: memd_pause_def)
  next
    case Resume
    then show ?thesis using assms by (simp add: memd_resume_def)
  qed
qed

lemma balance_run:
  assumes "wf_Data (memd_data s)"
    and "total_allocated_size (memd_data s) - total_free_size (memd_data s)
           = live_total (memd_data s)"
  shows "wf_Data (memd_data (run s ops)) \<and>
         total_allocated_size (memd_data (run s ops)) - total_free_size (memd_data (run s ops))
           = live_total (memd_data (run s ops))"
  using assms
proof (induction ops arbitrary: s)
  case Nil
  then show ?case by (simp add: run_Nil)
next
  case (Cons x ops)
  from balance_step [OF Cons.prems, of x] Cons.IH [of "step s x"]
  show ?case by (simp add: run_Cons)
qed

lemma live_init:
  "live_records MEMD_Data_init = []"
  by (simp add: live_records_def MEMD_Data_init_def zero_Mem_def)


section \<open>The table and the blocks not yet released\<close>










section \<open>Totals that have not wrapped around\<close>

lemma no_wrap_insert:
  assumes "no_wrap d A" and "A + insert_counted a sz d < 2 ^ 64"
  shows "no_wrap (insert_alloc a sz ln fl d) (A + insert_counted a sz d)"
proof (cases "a \<noteq> 0 \<and> find_by_address d 0 \<noteq> None")
  case False
  then show ?thesis
    using assms(1)
    by (auto simp: insert_alloc_def insert_counted_def no_wrap_def wf_Data_WARN live_bytes_def
        live_records_def)
next
  case True
  then obtain i where i: "find_by_address d 0 = Some i" by auto
  have c: "insert_counted a sz d = unat sz"
    using True by (simp add: insert_counted_def)
  have wf: "wf_Data d" using assms(1) by (simp add: no_wrap_def)
  then have len: "length (mem d) = MEMD_MAX_ALLOCATIONS" by (simp add: wf_Data_def)
  from i have b: "i < length (mem d)" "address (mem d ! i) = 0"
    using len by (simp_all add: find_by_address_Some_iff)
  let ?d' = "insert_alloc a sz ln fl d"
  have d': "?d' = d\<lparr>mem := (mem d)[i := \<lparr>address = a, msize = sz, mline = ln, mfile = fl\<rparr>],
                  total_allocated_size := total_allocated_size d + sz\<rparr>"
    using True i by (simp add: insert_alloc_def)
  from sum_filter_update [OF b(1), of "\<lambda>r. unat (msize r)" "\<lambda>r. address r \<noteq> 0"
      "\<lparr>address = a, msize = sz, mline = ln, mfile = fl\<rparr>"] b(2) True
  have live: "live_bytes ?d' = live_bytes d + unat sz"
    unfolding d' by (simp add: live_bytes_def live_records_def)
  have "unat (total_allocated_size d) + unat sz < 2 ^ 64"
    using assms c by (simp add: no_wrap_def)
  then have tot: "unat (total_allocated_size d + sz) = unat (total_allocated_size d) + unat sz"
    using unat_add_lem [of "total_allocated_size d" sz] by simp
  have "wf_Data ?d'" using wf by (rule wf_Data_insert)
  then show ?thesis
    using assms(1) live tot c by (simp add: no_wrap_def) (simp add: d')
qed

lemma no_wrap_erase:
  assumes "no_wrap d A"
  shows "no_wrap (snd (erase_alloc a ln fl d)) A"
proof (cases "a \<noteq> 0 \<and> find_by_address d a \<noteq> None")
  case False
  then show ?thesis
    using assms(1) by (auto simp: erase_alloc_def no_wrap_def wf_Data_WARN live_bytes_def live_records_def)
next
  case True
  then obtain i where i: "find_by_address d a = Some i" by auto
  have wf: "wf_Data d" using assms(1) by (simp add: no_wrap_def)
  then have len: "length (mem d) = MEMD_MAX_ALLOCATIONS" by (simp add: wf_Data_def)
  from i have b: "i < length (mem d)" "address (mem d ! i) = a"
    using len by (simp_all add: find_by_address_Some_iff)
  let ?d' = "snd (erase_alloc a ln fl d)"
  have d': "?d' = d\<lparr>mem := (mem d)[i := (mem d ! i)\<lparr>address := 0\<rparr>],
                     total_free_size := total_free_size d + msize (mem d ! i)\<rparr>"
    using True i by (simp add: erase_alloc_def)
  from sum_filter_update [OF b(1), of "\<lambda>r. unat (msize r)" "\<lambda>r. address r \<noteq> 0"
      "(mem d ! i)\<lparr>address := 0\<rparr>"] b(2) True
  have live: "live_bytes ?d' + unat (msize (mem d ! i)) = live_bytes d"
    unfolding d' by (simp add: live_bytes_def live_records_def)
  have bound: "unat (total_allocated_size d) < 2 ^ 64"
    using unsigned_less [of "total_allocated_size d"] by simp
  have "unat (total_free_size d) + unat (msize (mem d ! i)) < 2 ^ 64"
    using assms live bound by (simp add: no_wrap_def)
  then have tot: "unat (total_free_size d + msize (mem d ! i))
      = unat (total_free_size d) + unat (msize (mem d ! i))"
    using unat_add_lem [of "total_free_size d" "msize (mem d ! i)"] by simp
  have "wf_Data ?d'" using wf by (rule wf_Data_erase)
  then show ?thesis
    using assms(1) live tot by (simp add: no_wrap_def) (simp add: d')
qed

lemma no_wrap_step:
  assumes "no_wrap (memd_data s) A" and "A + counted s x < 2 ^ 64"
  shows "no_wrap (memd_data (step s x)) (A + counted s x)"
proof (cases x)
  case (Malloc ret sz ln fl)
  then show ?thesis
    using assms no_wrap_insert [OF assms(1), of ret sz ln fl]
    by (auto simp: memd_malloc_def Let_def)
next
  case (Calloc ret num sz ln fl)
  then show ?thesis
    using assms no_wrap_insert [OF assms(1), of ret "num * sz" ln fl]
    by (auto simp: memd_calloc_def Let_def)
next
  case (Free ptr ln fl)
  then show ?thesis
    using assms no_wrap_erase [OF assms(1), of ptr ln fl] by (simp add: memd_data_free)
next
  case (Realloc ret ptr sz ln fl)
  have e: "no_wrap (snd (erase_alloc ptr ln fl (memd_data s))) A"
    using assms(1) by (rule no_wrap_erase)
  from Realloc show ?thesis
    using assms no_wrap_insert [OF assms(1), of ret sz ln fl]
      no_wrap_insert [OF e, of ret sz ln fl] no_wrap_erase [OF assms(1), of ptr ln fl]
    by (auto simp: memd_realloc_def memd_malloc_def memd_data_free Let_def)
next
  case Pause
  then show ?thesis using assms by (simp add: memd_pause_def)
next
  case Resume
  then show ?thesis using assms by (simp add: memd_resume_def)
qed

lemma no_wrap_run:
  assumes "no_wrap (memd_data s) A" and "A + total_counted s ops < 2 ^ 64"
  shows "no_wrap (memd_data (run s ops)) (A + total_counted s ops)"
  using assms
proof (induction ops arbitrary: s A)
  case Nil
  then show ?case by (simp add: run_Nil)
next
  case (Cons x ops)
  have "A + counted s x < 2 ^ 64"
    using Cons.prems(2) by simp
  from no_wrap_step [OF Cons.prems(1) this]
  have "no_wrap (memd_data (step s x)) (A + counted s x)" .
  moreover have "A + counted s x + total_counted (step s x) ops < 2 ^ 64"
    using Cons.prems(2) by simp
  ultimately have "no_wrap (memd_data (run (step s x) ops))
      (A + counted s x + total_counted (step s x) ops)"
    by (rule Cons.IH)
  then show ?case by (simp add: run_Cons add.assoc)
qed

lemma no_wrap_init: "no_wrap (memd_data init_state) 0"
  by (simp add: no_wrap_def init_state_def wf_Data_init live_bytes_def live_init)
     (simp add: MEMD_Data_init_def)

lemma run_append: "run s (xs @ ys) = run (run s xs) ys"
  by (simp add: run_def)

text \<open>The state after \<open>n\<close> rounds of allocating a block and releasing it.\<close>

lemma rounds_state:
  assumes "p \<noteq> 0"
  shows "memd_ignore (run init_state (concat (replicate n [Malloc p sz l1 f1, Free p l2 f2]))) = 0 \<and>
         wf_Data (memd_data (run init_state (concat (replicate n [Malloc p sz l1 f1, Free p l2 f2])))) \<and>
         (\<forall>j. j < MEMD_MAX_ALLOCATIONS \<longrightarrow>
            address (mem (memd_data
              (run init_state (concat (replicate n [Malloc p sz l1 f1, Free p l2 f2])))) ! j) = 0) \<and>
         total_allocated_size (memd_data
            (run init_state (concat (replicate n [Malloc p sz l1 f1, Free p l2 f2])))) = of_nat n * sz \<and>
         total_free_size (memd_data
            (run init_state (concat (replicate n [Malloc p sz l1 f1, Free p l2 f2])))) = of_nat n * sz"
proof (induction n)
  case 0
  show ?case
    by (simp add: run_Nil init_state_def wf_Data_init)
       (simp add: MEMD_Data_init_def zero_Mem_def)
next
  case (Suc n)
  let ?S = "run init_state (concat (replicate n [Malloc p sz l1 f1, Free p l2 f2]))"
  let ?d = "memd_data ?S"
  let ?r = "\<lparr>address = p, msize = sz, mline = l1, mfile = f1\<rparr>"
  from Suc have IH: "memd_ignore ?S = 0" "wf_Data ?d"
    "\<forall>j. j < MEMD_MAX_ALLOCATIONS \<longrightarrow> address (mem ?d ! j) = 0"
    "total_allocated_size ?d = of_nat n * sz" "total_free_size ?d = of_nat n * sz"
    by simp_all
  have len: "length (mem ?d) = MEMD_MAX_ALLOCATIONS"
    using IH(2) by (simp add: wf_Data_def)
  have pos: "0 < MEMD_MAX_ALLOCATIONS" by (simp add: MEMD_MAX_ALLOCATIONS_def)
  have "replicate (Suc n) [Malloc p sz l1 f1, Free p l2 f2] =
      replicate n [Malloc p sz l1 f1, Free p l2 f2] @ [[Malloc p sz l1 f1, Free p l2 f2]]"
    by (simp add: replicate_append_same)
  then have unfold: "run init_state (concat (replicate (Suc n) [Malloc p sz l1 f1, Free p l2 f2])) =
      memd_free p l2 f2 (snd (memd_malloc p sz l1 f1 ?S))"
    by (simp only: concat_append run_append) (simp add: run_def)
  have f0: "find_by_address ?d 0 = Some 0"
    using IH(3) pos by (simp add: find_by_address_Some_iff)
  let ?d1 = "?d\<lparr>mem := (mem ?d)[0 := ?r], total_allocated_size := total_allocated_size ?d + sz\<rparr>"
  have i1: "insert_alloc p sz l1 f1 ?d = ?d1"
    using assms f0 by (simp add: insert_alloc_def)
  have f1: "find_by_address ?d1 p = Some 0"
    using pos len by (simp add: find_by_address_Some_iff)
  let ?d2 = "?d1\<lparr>mem := (mem ?d1)[0 := (mem ?d1 ! 0)\<lparr>address := 0\<rparr>],
       total_free_size := total_free_size ?d1 + msize (mem ?d1 ! 0)\<rparr>"
  have e1: "erase_alloc p l2 f2 ?d1 = (0, ?d2)"
    using assms f1 by (simp add: erase_alloc_def)
  have S': "memd_free p l2 f2 (snd (memd_malloc p sz l1 f1 ?S)) =
      ?S\<lparr>heap_calls := heap_calls ?S @ [Real_malloc sz p, Real_free p], memd_data := ?d2\<rparr>"
    using IH(1) i1 e1 by (simp add: memd_malloc_def memd_free_def Let_def)
  have wf2: "wf_Data ?d2"
    using IH(2) by (simp add: wf_Data_def)
  have empty: "\<forall>j. j < MEMD_MAX_ALLOCATIONS \<longrightarrow> address (mem ?d2 ! j) = 0"
    using IH(3) len pos by (simp add: nth_list_update)
  have tot: "total_allocated_size ?d2 = of_nat (Suc n) * sz" "total_free_size ?d2 = of_nat (Suc n) * sz"
    using IH(4,5) len pos by (simp_all add: algebra_simps)
  show ?case
    unfolding unfold S' using IH(1) wf2 empty tot by simp
qed

text \<open>
  C10 (amended). After every sequence of calls from the initial all-zero state during
  which \<^verbatim>\<open>total_allocated_size\<close> has not wrapped around (the sizes \<^verbatim>\<open>_insert\<close> has added
  to it sum to less than \<open>2 ^ 64\<close>; requests that were suppressed, refused or over the
  capacity add nothing), \<^verbatim>\<open>total_free_size\<close> is at most \<^verbatim>\<open>total_allocated_size\<close>, and the
  unsigned subtraction of the report does not underflow: its value is the difference of
  the two numbers, which is the number of bytes of the tracked records. After any
  sequence at all, \<^verbatim>\<open>total_free_size\<close> is at most \<^verbatim>\<open>total_allocated_size\<close> exactly when
  adding the bytes of the tracked records to \<^verbatim>\<open>total_free_size\<close> does not overflow
  \<^verbatim>\<open>size_t\<close>.
\<close>

theorem total_free_le_total_allocated:
  "(total_counted init_state ops < 2 ^ 64 \<longrightarrow>
      total_free_size (memd_data (run init_state ops))
        \<le> total_allocated_size (memd_data (run init_state ops)) \<and>
      unat (total_allocated_size (memd_data (run init_state ops))
              - total_free_size (memd_data (run init_state ops)))
        = unat (total_allocated_size (memd_data (run init_state ops)))
            - unat (total_free_size (memd_data (run init_state ops))) \<and>
      unat (total_allocated_size (memd_data (run init_state ops))
              - total_free_size (memd_data (run init_state ops)))
        = live_bytes (memd_data (run init_state ops)) \<and>
      unat (total_allocated_size (memd_data (run init_state ops)))
        = total_counted init_state ops) \<and>
   (total_free_size (memd_data (run init_state ops))
        \<le> total_allocated_size (memd_data (run init_state ops)) \<longleftrightarrow>
      unat (total_free_size (memd_data (run init_state ops)))
        + unat (live_total (memd_data (run init_state ops))) < 2 ^ 64)"
proof -
  let ?d = "memd_data (run init_state ops)"
  have A: "total_free_size ?d \<le> total_allocated_size ?d \<and>
      unat (total_allocated_size ?d - total_free_size ?d)
        = unat (total_allocated_size ?d) - unat (total_free_size ?d) \<and>
      unat (total_allocated_size ?d - total_free_size ?d) = live_bytes ?d \<and>
      unat (total_allocated_size ?d) = total_counted init_state ops"
    if bound: "total_counted init_state ops < 2 ^ 64"
  proof -
    from no_wrap_run [OF no_wrap_init, of ops] bound
    have n: "unat (total_allocated_size ?d) = unat (total_free_size ?d) + live_bytes ?d"
      and c: "unat (total_allocated_size ?d) = total_counted init_state ops"
      by (simp_all add: no_wrap_def)
    from n have le: "total_free_size ?d \<le> total_allocated_size ?d"
      by (simp add: word_le_nat_alt)
    from unat_sub [OF le] n le c show ?thesis by simp
  qed
  have "wf_Data (memd_data init_state)"
    by (simp add: init_state_def wf_Data_init)
  moreover have "total_allocated_size (memd_data init_state) - total_free_size (memd_data init_state)
      = live_total (memd_data init_state)"
    by (simp add: init_state_def live_total_def live_init) (simp add: MEMD_Data_init_def)
  ultimately have "total_allocated_size ?d - total_free_size ?d = live_total ?d"
    using balance_run by blast
  then have "total_allocated_size ?d = total_free_size ?d + live_total ?d"
    by (simp add: algebra_simps)
  then have B: "total_free_size ?d \<le> total_allocated_size ?d \<longleftrightarrow>
      unat (total_free_size ?d) + unat (live_total ?d) < 2 ^ 64"
    using no_olen_add_nat [of "total_free_size ?d" "live_total ?d"] by simp
  from A B show ?thesis by blast
qed

theorem total_free_le_total_allocated_witness:
  "total_counted init_state
      [Malloc 4096 100 8 ''main.c'', Free 4096 8 ''main.c'', Free 4096 9 ''main.c''] < 2 ^ 64 \<and>
   total_free_size (memd_data (run init_state
       [Malloc 4096 100 8 ''main.c'', Free 4096 8 ''main.c'', Free 4096 9 ''main.c'']))
     \<le> total_allocated_size (memd_data (run init_state
       [Malloc 4096 100 8 ''main.c'', Free 4096 8 ''main.c'', Free 4096 9 ''main.c''])) \<and>
   unat (total_allocated_size (memd_data (run init_state
       [Malloc 4096 100 8 ''main.c'', Free 4096 8 ''main.c'', Free 4096 9 ''main.c''])))
     = total_counted init_state
       [Malloc 4096 100 8 ''main.c'', Free 4096 8 ''main.c'', Free 4096 9 ''main.c''] \<and>
   total_counted init_state
      [Malloc 0 0xFFFFFFFFFFFFFFFF 1 ''a.c'', Malloc 4096 1 2 ''a.c'', Free 4096 3 ''a.c'']
     < 2 ^ 64 \<and>
   total_free_size (memd_data (run init_state
       [Malloc 0 0xFFFFFFFFFFFFFFFF 1 ''a.c'', Malloc 4096 1 2 ''a.c'', Free 4096 3 ''a.c'']))
     \<le> total_allocated_size (memd_data (run init_state
       [Malloc 0 0xFFFFFFFFFFFFFFFF 1 ''a.c'', Malloc 4096 1 2 ''a.c'', Free 4096 3 ''a.c'']))"
proof -
  have le: "insert_counted a sz d \<le> unat sz" for a sz d
    by (simp add: insert_counted_def)
  have "total_counted init_state
      [Malloc 4096 100 8 ''main.c'', Free 4096 8 ''main.c'', Free 4096 9 ''main.c'']
      \<le> unat (100 :: size_t)"
    using le [of 4096 100 "memd_data init_state"] by (simp add: init_state_def)
  then have h1: "total_counted init_state
      [Malloc 4096 100 8 ''main.c'', Free 4096 8 ''main.c'', Free 4096 9 ''main.c''] < 2 ^ 64"
    by simp
  have "total_counted init_state
      [Malloc 0 0xFFFFFFFFFFFFFFFF 1 ''a.c'', Malloc 4096 1 2 ''a.c'', Free 4096 3 ''a.c'']
      \<le> unat (1 :: size_t)"
    using le [of 4096 1 "memd_data (step init_state (Malloc 0 0xFFFFFFFFFFFFFFFF 1 ''a.c''))"]
    by (simp add: init_state_def memd_malloc_def Let_def insert_counted_def)
  then have h2: "total_counted init_state
      [Malloc 0 0xFFFFFFFFFFFFFFFF 1 ''a.c'', Malloc 4096 1 2 ''a.c'', Free 4096 3 ''a.c''] < 2 ^ 64"
    by simp
  from h1 h2
    total_free_le_total_allocated
      [of "[Malloc 4096 100 8 ''main.c'', Free 4096 8 ''main.c'', Free 4096 9 ''main.c'']"]
    total_free_le_total_allocated
      [of "[Malloc 0 0xFFFFFFFFFFFFFFFF 1 ''a.c'', Malloc 4096 1 2 ''a.c'', Free 4096 3 ''a.c'']"]
  show ?thesis by blast
qed

text \<open>
  \<open>2 ^ 34 - 1\<close> rounds of allocating a block of 1 GiB and releasing it, then one more such
  allocation: the sizes counted sum to \<open>2 ^ 64\<close>, so \<^verbatim>\<open>total_allocated_size\<close> has wrapped
  to 0, below \<^verbatim>\<open>total_free_size = 2 ^ 64 - 2 ^ 30\<close>.
\<close>

theorem total_free_le_total_allocated_counterexample:
  "total_allocated_size (memd_data (run init_state
        (concat (replicate 17179869183
           [Malloc 4096 1073741824 1 ''a.c'', Free 4096 2 ''a.c''])
         @ [Malloc 4096 1073741824 1 ''a.c'']))) = 0 \<and>
   total_free_size (memd_data (run init_state
        (concat (replicate 17179869183
           [Malloc 4096 1073741824 1 ''a.c'', Free 4096 2 ''a.c''])
         @ [Malloc 4096 1073741824 1 ''a.c'']))) = 0xFFFFFFFFC0000000 \<and>
   \<not> total_free_size (memd_data (run init_state
        (concat (replicate 17179869183
           [Malloc 4096 1073741824 1 ''a.c'', Free 4096 2 ''a.c''])
         @ [Malloc 4096 1073741824 1 ''a.c''])))
      \<le> total_allocated_size (memd_data (run init_state
        (concat (replicate 17179869183
           [Malloc 4096 1073741824 1 ''a.c'', Free 4096 2 ''a.c''])
         @ [Malloc 4096 1073741824 1 ''a.c''])))"
proof -
  let ?S = "run init_state (concat (replicate 17179869183
           [Malloc 4096 1073741824 1 ''a.c'', Free 4096 2 ''a.c'']))"
  have nz: "(4096 :: size_t) \<noteq> 0" by simp
  note S = rounds_state [OF nz, of 17179869183 1073741824 1 "''a.c''" 2 "''a.c''"]
  have pos: "0 < MEMD_MAX_ALLOCATIONS" by (simp add: MEMD_MAX_ALLOCATIONS_def)
  have f0: "find_by_address (memd_data ?S) 0 = Some 0"
    using S pos by (simp add: find_by_address_Some_iff)
  have "memd_data (run init_state
        (concat (replicate 17179869183
           [Malloc 4096 1073741824 1 ''a.c'', Free 4096 2 ''a.c''])
         @ [Malloc 4096 1073741824 1 ''a.c''])) =
      insert_alloc 4096 1073741824 1 ''a.c'' (memd_data ?S)"
    using S by (simp add: run_append) (simp add: run_def memd_malloc_def Let_def)
  moreover have "total_allocated_size (insert_alloc 4096 1073741824 1 ''a.c'' (memd_data ?S)) = 0"
    "total_free_size (insert_alloc 4096 1073741824 1 ''a.c'' (memd_data ?S)) = 0xFFFFFFFFC0000000"
    using S f0 by (simp_all add: insert_alloc_def)
  ultimately show ?thesis by simp
qed

section \<open>The report buffer\<close>

lemma grow_buffer_total:
  assumes "0 < bs"
  shows "\<exists>k. grow_buffer need bs = Some (bs * 2 ^ k) \<and> need < bs * 2 ^ k \<and>
             (\<forall>j. j < k \<longrightarrow> bs * 2 ^ j \<le> need)"
  using assms
proof (induction "Suc need - bs" arbitrary: bs rule: less_induct)
  case less
  show ?case
  proof (cases "bs \<le> need")
    case False
    then have "grow_buffer need bs = Some (bs * 2 ^ 0) \<and> need < bs * 2 ^ 0 \<and>
        (\<forall>j. j < (0::nat) \<longrightarrow> bs * 2 ^ j \<le> need)"
      by (simp add: grow_buffer.simps [of need bs])
    then show ?thesis by blast
  next
    case True
    have step: "grow_buffer need bs = grow_buffer need (bs * 2)"
      using True by (simp add: grow_buffer.simps [of need bs])
    have "Suc need - bs * 2 < Suc need - bs" "0 < bs * 2"
      using True less.prems by simp_all
    from less.hyps [OF this]
    obtain k where k: "grow_buffer need (bs * 2) = Some (bs * 2 * 2 ^ k)"
      "need < bs * 2 * 2 ^ k" "\<forall>j. j < k \<longrightarrow> bs * 2 * 2 ^ j \<le> need"
      by blast
    have "\<forall>j. j < Suc k \<longrightarrow> bs * 2 ^ j \<le> need"
    proof (intro allI impI)
      fix j assume "j < Suc k"
      show "bs * 2 ^ j \<le> need"
      proof (cases j)
        case 0
        then show ?thesis using True by simp
      next
        case (Suc j')
        with \<open>j < Suc k\<close> k(3) have "bs * 2 * 2 ^ j' \<le> need" by simp
        then show ?thesis using Suc by (simp add: mult.assoc)
      qed
    qed
    with step k(1,2) have "grow_buffer need bs = Some (bs * 2 ^ Suc k) \<and> need < bs * 2 ^ Suc k \<and>
        (\<forall>j. j < Suc k \<longrightarrow> bs * 2 ^ j \<le> need)"
      by (simp add: mult.assoc)
    then show ?thesis by blast
  qed
qed

lemma write_fragment_fits:
  assumes "length (report b) = offset b" and "offset b + length frag < buffer_size b"
  shows "write_fragment frag b = b\<lparr>report := report b @ frag, offset := offset b + length frag\<rparr>"
  using assms by (simp add: write_fragment_def Let_def)

lemma APPEND_fits:
  assumes "buf_ok b" and "offset b + length frag < buffer_size b"
  shows "APPEND_TO_REPORT avail frag b =
           Some (Inr (b\<lparr>report := report b @ frag, offset := offset b + length frag\<rparr>))"
  using assms by (simp add: APPEND_TO_REPORT_def Let_def buf_ok_def write_fragment_fits)

lemma APPEND_grows:
  assumes "buf_ok b" and "buffer_size b \<le> offset b + length frag"
  shows "\<exists>k. 0 < k \<and> offset b + length frag < buffer_size b * 2 ^ k \<and>
             (\<forall>j. j < k \<longrightarrow> buffer_size b * 2 ^ j \<le> offset b + length frag) \<and>
             APPEND_TO_REPORT avail frag b =
               (if avail (buffer_size b * 2 ^ k)
                then Some (Inr (b\<lparr>report := report b @ frag,
                                 offset := offset b + length frag,
                                 buffer_size := buffer_size b * 2 ^ k,
                                 report_calls := report_calls b
                                    @ [Report_realloc (buffer_size b * 2 ^ k)]\<rparr>))
                else Some (Inl (report_calls b
                                  @ [Report_realloc (buffer_size b * 2 ^ k), Report_free])))"
proof -
  have pos: "0 < buffer_size b"
    using assms(1) by (simp add: buf_ok_def)
  from grow_buffer_total [OF pos, of "offset b + length frag"]
  obtain k where k: "grow_buffer (offset b + length frag) (buffer_size b) = Some (buffer_size b * 2 ^ k)"
    "offset b + length frag < buffer_size b * 2 ^ k"
    "\<forall>j. j < k \<longrightarrow> buffer_size b * 2 ^ j \<le> offset b + length frag"
    by blast
  have "k \<noteq> 0"
    using k(2) assms(2) by (cases k) auto
  then have kpos: "0 < k" by simp
  let ?b1 = "b\<lparr>buffer_size := buffer_size b * 2 ^ k,
               report_calls := report_calls b @ [Report_realloc (buffer_size b * 2 ^ k)]\<rparr>"
  have w: "write_fragment frag ?b1 =
      ?b1\<lparr>report := report ?b1 @ frag, offset := offset ?b1 + length frag\<rparr>"
    using assms(1) k(2) by (intro write_fragment_fits) (simp_all add: buf_ok_def)
  have "APPEND_TO_REPORT avail frag b =
               (if avail (buffer_size b * 2 ^ k)
                then Some (Inr (b\<lparr>report := report b @ frag,
                                 offset := offset b + length frag,
                                 buffer_size := buffer_size b * 2 ^ k,
                                 report_calls := report_calls b
                                    @ [Report_realloc (buffer_size b * 2 ^ k)]\<rparr>))
                else Some (Inl (report_calls b
                                  @ [Report_realloc (buffer_size b * 2 ^ k), Report_free])))"
    using assms(2) k(1) w by (simp add: APPEND_TO_REPORT_def Let_def)
  with kpos k(2,3) show ?thesis by blast
qed

lemma and_then_simps [simp]:
  "and_then None f = None"
  "and_then (Some (Inl c)) f = Some (Inl c)"
  "and_then (Some (Inr b)) f = f b"
  by (simp_all add: and_then_def)

lemma and_then_assoc:
  "and_then (and_then r f) g = and_then r (\<lambda>b. and_then (f b) g)"
  by (simp add: and_then_def split: option.splits sum.splits)

lemma append_all_append:
  "append_all avail (xs @ ys) b = and_then (append_all avail xs b) (append_all avail ys)"
proof (induction xs arbitrary: b)
  case Nil
  show ?case by simp
next
  case (Cons x xs)
  have "append_all avail (xs @ ys) = (\<lambda>b. and_then (append_all avail xs b) (append_all avail ys))"
    by (rule ext) (rule Cons.IH)
  then show ?case
    by (simp add: and_then_assoc)
qed

lemma APPEND_result:
  assumes "buf_ok b"
  shows "(\<exists>b' pre. APPEND_TO_REPORT avail frag b = Some (Inr b') \<and>
            report b' = report b @ frag \<and> buf_ok b' \<and>
            report_calls b' = report_calls b @ pre \<and> list_all (granted_call avail) pre) \<or>
         (\<exists>bs. APPEND_TO_REPORT avail frag b
                  = Some (Inl (report_calls b @ [Report_realloc bs, Report_free])) \<and>
               \<not> avail bs)"
proof (cases "offset b + length frag < buffer_size b")
  case True
  let ?b' = "b\<lparr>report := report b @ frag, offset := offset b + length frag\<rparr>"
  have "APPEND_TO_REPORT avail frag b = Some (Inr ?b')"
    using assms True by (rule APPEND_fits)
  moreover have "report ?b' = report b @ frag \<and> buf_ok ?b' \<and>
      report_calls ?b' = report_calls b @ [] \<and> list_all (granted_call avail) []"
    using assms True by (simp add: buf_ok_def)
  ultimately show ?thesis by blast
next
  case False
  then have "buffer_size b \<le> offset b + length frag" by simp
  from APPEND_grows [OF assms this, of avail]
  obtain k where k: "offset b + length frag < buffer_size b * 2 ^ k"
    and r: "APPEND_TO_REPORT avail frag b =
               (if avail (buffer_size b * 2 ^ k)
                then Some (Inr (b\<lparr>report := report b @ frag,
                                 offset := offset b + length frag,
                                 buffer_size := buffer_size b * 2 ^ k,
                                 report_calls := report_calls b
                                    @ [Report_realloc (buffer_size b * 2 ^ k)]\<rparr>))
                else Some (Inl (report_calls b
                                  @ [Report_realloc (buffer_size b * 2 ^ k), Report_free])))"
    by blast
  show ?thesis
  proof (cases "avail (buffer_size b * 2 ^ k)")
    case True
    let ?b' = "b\<lparr>report := report b @ frag,
                                 offset := offset b + length frag,
                                 buffer_size := buffer_size b * 2 ^ k,
                                 report_calls := report_calls b
                                    @ [Report_realloc (buffer_size b * 2 ^ k)]\<rparr>"
    have "APPEND_TO_REPORT avail frag b = Some (Inr ?b')"
      using r True by simp
    moreover have "report ?b' = report b @ frag \<and> buf_ok ?b' \<and>
        report_calls ?b' = report_calls b @ [Report_realloc (buffer_size b * 2 ^ k)] \<and>
        list_all (granted_call avail) [Report_realloc (buffer_size b * 2 ^ k)]"
      using assms k True by (simp add: buf_ok_def)
    ultimately show ?thesis by blast
  next
    case False
    with r show ?thesis by auto
  qed
qed

lemma append_all_result:
  assumes "buf_ok b"
  shows "(\<exists>b' pre. append_all avail frags b = Some (Inr b') \<and>
            report b' = report b @ concat frags \<and> buf_ok b' \<and>
            report_calls b' = report_calls b @ pre \<and> list_all (granted_call avail) pre) \<or>
         (\<exists>pre bs. append_all avail frags b
                  = Some (Inl (report_calls b @ pre @ [Report_realloc bs, Report_free])) \<and>
               \<not> avail bs \<and> list_all (granted_call avail) pre)"
  using assms
proof (induction frags arbitrary: b)
  case Nil
  then have "append_all avail [] b = Some (Inr b) \<and> report b = report b @ concat [] \<and> buf_ok b \<and>
      report_calls b = report_calls b @ [] \<and> list_all (granted_call avail) []"
    by simp
  then show ?case by blast
next
  case (Cons f fs)
  from APPEND_result [OF Cons.prems, of avail f]
  show ?case
  proof (elim disjE exE conjE)
    fix b1 pre1
    assume a: "APPEND_TO_REPORT avail f b = Some (Inr b1)" "report b1 = report b @ f"
      "buf_ok b1" "report_calls b1 = report_calls b @ pre1" "list_all (granted_call avail) pre1"
    have eq: "append_all avail (f # fs) b = append_all avail fs b1"
      using a(1) by simp
    from Cons.IH [OF a(3)] show ?thesis
    proof (elim disjE exE conjE)
      fix b' pre
      assume "append_all avail fs b1 = Some (Inr b')" "report b' = report b1 @ concat fs"
        "buf_ok b'" "report_calls b' = report_calls b1 @ pre" "list_all (granted_call avail) pre"
      with a eq have "append_all avail (f # fs) b = Some (Inr b') \<and>
          report b' = report b @ concat (f # fs) \<and> buf_ok b' \<and>
          report_calls b' = report_calls b @ (pre1 @ pre) \<and>
          list_all (granted_call avail) (pre1 @ pre)"
        by simp
      then show ?thesis by blast
    next
      fix pre bs
      assume "append_all avail fs b1
          = Some (Inl (report_calls b1 @ pre @ [Report_realloc bs, Report_free]))"
        "\<not> avail bs" "list_all (granted_call avail) pre"
      with a eq have "append_all avail (f # fs) b
          = Some (Inl (report_calls b @ (pre1 @ pre) @ [Report_realloc bs, Report_free])) \<and>
          \<not> avail bs \<and> list_all (granted_call avail) (pre1 @ pre)"
        by simp
      then show ?thesis by blast
    qed
  next
    fix bs
    assume "APPEND_TO_REPORT avail f b
        = Some (Inl (report_calls b @ [Report_realloc bs, Report_free]))" "\<not> avail bs"
    then have "append_all avail (f # fs) b
          = Some (Inl (report_calls b @ [] @ [Report_realloc bs, Report_free])) \<and>
          \<not> avail bs \<and> list_all (granted_call avail) []"
      by simp
    then show ?thesis by blast
  qed
qed

section \<open>The report as a sequence of fragments\<close>

lemma leak_loop_append_all:
  "length (mem d) = MEMD_MAX_ALLOCATIONS \<Longrightarrow> i \<le> MEMD_MAX_ALLOCATIONS \<Longrightarrow>
         leak_loop avail d i b =
           append_all avail (map frag_leak (filter (\<lambda>r. address r \<noteq> 0) (drop i (mem d)))) b"
proof (induction avail d i b rule: leak_loop.induct)
  case (1 avail d i b)
  show ?case
  proof (cases "i < MEMD_MAX_ALLOCATIONS")
    case False
    then have "leak_loop avail d i b = Some (Inr b)"
      by (simp add: leak_loop.simps [of avail d i b])
    moreover have "drop i (mem d) = []"
      using False "1.prems" by simp
    ultimately show ?thesis by simp
  next
    case bound: True
    then have le: "i + 1 \<le> MEMD_MAX_ALLOCATIONS" by simp
    have dr: "drop i (mem d) = mem d ! i # drop (i + 1) (mem d)"
      using bound "1.prems" by (simp add: Cons_nth_drop_Suc)
    show ?thesis
    proof (cases "address (mem d ! i) \<noteq> 0")
      case False
      with bound "1.IH"(2) [OF bound False "1.prems"(1) le] show ?thesis
        by (simp add: leak_loop.simps [of avail d i b] dr)
    next
      case live: True
      show ?thesis
      proof (cases "APPEND_TO_REPORT avail (frag_leak (mem d ! i)) b")
        case None
        with bound live show ?thesis
          by (simp add: leak_loop.simps [of avail d i b] dr)
      next
        case (Some r)
        show ?thesis
        proof (cases r)
          case (Inl c)
          with Some bound live show ?thesis
            by (simp add: leak_loop.simps [of avail d i b] dr)
        next
          case (Inr b')
          with Some bound live "1.IH"(1) [OF bound live Some Inr "1.prems"(1) le] show ?thesis
            by (simp add: leak_loop.simps [of avail d i b] dr)
        qed
      qed
    qed
  qed
qed

lemma warning_loop_append_all:
  "wf_Data d \<Longrightarrow> warning_loop avail d i b =
           append_all avail (map frag_warning (drop i (recorded_warnings d))) b"
proof (induction avail d i b rule: warning_loop.induct)
  case (1 avail d i b)
  have n: "0 \<le> warning_count d" "nat (warning_count d) \<le> length (warnings d)"
    using "1.prems" by (simp_all add: wf_Data_def nat_mono)
  show ?case
  proof (cases "int i < warning_count d")
    case False
    then have "nat (warning_count d) \<le> i" by simp
    with False show ?thesis
      by (simp add: warning_loop.simps [of avail d i b] recorded_warnings_def)
  next
    case bound: True
    then have i: "i < nat (warning_count d)" by simp
    then have "i < length (recorded_warnings d)"
      using n by (simp add: recorded_warnings_def)
    then have "drop i (recorded_warnings d) =
        recorded_warnings d ! i # drop (i + 1) (recorded_warnings d)"
      by (simp add: Cons_nth_drop_Suc)
    moreover have "recorded_warnings d ! i = warnings d ! i"
      using i by (simp add: recorded_warnings_def)
    ultimately have dr: "drop i (recorded_warnings d) =
        warnings d ! i # drop (i + 1) (recorded_warnings d)"
      by simp
    show ?thesis
    proof (cases "APPEND_TO_REPORT avail (frag_warning (warnings d ! i)) b")
      case None
      with bound show ?thesis
        by (simp add: warning_loop.simps [of avail d i b] dr)
    next
      case (Some r)
      show ?thesis
      proof (cases r)
        case (Inl c)
        with Some bound show ?thesis
          by (simp add: warning_loop.simps [of avail d i b] dr)
      next
        case (Inr b')
        with Some bound "1.IH" [OF bound Some Inr "1.prems"] show ?thesis
          by (simp add: warning_loop.simps [of avail d i b] dr)
      qed
    qed
  qed
qed

lemma and_then_return [simp]: "and_then r (\<lambda>b. Some (Inr b)) = r"
  by (simp add: and_then_def split: option.splits sum.splits)

lemma memd_report_append_all:
  assumes "wf_Data d" and "avail 10240"
  shows "memd_report avail d =
     (case append_all avail (report_fragments d)
             \<lparr>report = [], buffer_size = 10240, offset = 0,
              report_calls = [Report_malloc 10240]\<rparr> of
        None \<Rightarrow> None
      | Some (Inl calls) \<Rightarrow> Some (None, calls)
      | Some (Inr b) \<Rightarrow> Some (Some (report b), report_calls b))"
proof -
  have len: "length (mem d) = MEMD_MAX_ALLOCATIONS"
    using assms(1) by (simp add: wf_Data_def)
  have L: "leak_loop avail d 0 = append_all avail (map frag_leak (live_records d))"
    by (rule ext) (simp add: leak_loop_append_all [OF len] live_records_def)
  have W: "warning_loop avail d 0 = append_all avail (map frag_warning (recorded_warnings d))"
    by (rule ext) (simp add: warning_loop_append_all [OF assms(1)])
  have chain: "append_all avail (report_fragments d) b0 =
      and_then (APPEND_TO_REPORT avail frag_header1 b0) (\<lambda>b.
      and_then (APPEND_TO_REPORT avail frag_header2 b) (\<lambda>b.
      and_then (APPEND_TO_REPORT avail frag_header3 b) (\<lambda>b.
      and_then (APPEND_TO_REPORT avail (frag_allocated d) b) (\<lambda>b.
      and_then (APPEND_TO_REPORT avail (frag_freed d) b) (\<lambda>b.
      and_then (APPEND_TO_REPORT avail (frag_leaked d) b) (\<lambda>b.
      and_then
        (if total_free_size d \<noteq> total_allocated_size d
         then and_then (APPEND_TO_REPORT avail frag_detailed b) (leak_loop avail d 0)
         else Some (Inr b)) (\<lambda>b.
      and_then
        (if warning_count d > 0
         then and_then (APPEND_TO_REPORT avail frag_warnings b) (warning_loop avail d 0)
         else Some (Inr b)) (\<lambda>b.
      APPEND_TO_REPORT avail frag_footer b))))))))" for b0
  proof -
    have tail: "append_all avail [frag_footer] = (\<lambda>b. APPEND_TO_REPORT avail frag_footer b)"
      by (rule ext) simp
    have ws: "append_all avail
        ((if warning_count d > 0
          then frag_warnings # map frag_warning (recorded_warnings d) else []) @ [frag_footer]) =
        (\<lambda>b. and_then
          (if warning_count d > 0
           then and_then (APPEND_TO_REPORT avail frag_warnings b) (warning_loop avail d 0)
           else Some (Inr b)) (\<lambda>b. APPEND_TO_REPORT avail frag_footer b))"
      by (rule ext) (simp add: W append_all_append and_then_assoc tail)
    have ls: "append_all avail
        ((if total_free_size d \<noteq> total_allocated_size d
          then frag_detailed # map frag_leak (live_records d) else []) @ rest) =
        (\<lambda>b. and_then
          (if total_free_size d \<noteq> total_allocated_size d
           then and_then (APPEND_TO_REPORT avail frag_detailed b) (leak_loop avail d 0)
           else Some (Inr b)) (append_all avail rest))" for rest
      by (rule ext) (simp add: L append_all_append and_then_assoc)
    show ?thesis
      unfolding report_fragments_def by (simp add: ls ws)
  qed
  show ?thesis
    using assms(2) unfolding memd_report_def Let_def chain by simp
qed

lemma concat_report_fragments:
  assumes "wf_Data d"
  shows "concat (report_fragments d) = report_text d"
proof -
  have "(0 < warning_count d) = (recorded_warnings d \<noteq> [])"
    using assms by (auto simp: wf_Data_def recorded_warnings_def MEMD_MAX_WARNINGS_def)
  then show ?thesis
    by (simp add: report_fragments_def report_text_def)
qed

section \<open>The text of the report\<close>

text \<open>Allocate 100 bytes at main.c:8, release the block, release it again at main.c:9.\<close>

lemma scenario_A_data:
  assumes "p \<noteq> 0"
  shows "memd_data (run init_state [Malloc p 100 8 ''main.c'', Free p ln fl, Free p 9 ''main.c''])
   = \<lparr>mem = (replicate 1000 zero_Mem)
              [0 := \<lparr>address = 0, msize = 100, mline = 8, mfile = ''main.c''\<rparr>],
      total_allocated_size = 100, total_free_size = 100,
      warnings = (replicate 1000 zero_Warning)
              [0 := \<lparr>message = ''Double free detected'', wline = 9, wfile = ''main.c''\<rparr>],
      warning_count = 1\<rparr>"
proof -
  let ?d0 = "\<lparr>mem = replicate 1000 zero_Mem,
      total_allocated_size = 0, total_free_size = 0,
      warnings = replicate 1000 zero_Warning, warning_count = 0\<rparr>"
  let ?d1 = "\<lparr>mem = (replicate 1000 zero_Mem)
              [0 := \<lparr>address = p, msize = 100, mline = 8, mfile = ''main.c''\<rparr>],
      total_allocated_size = 100, total_free_size = 0,
      warnings = replicate 1000 zero_Warning, warning_count = 0\<rparr>"
  let ?d2 = "\<lparr>mem = (replicate 1000 zero_Mem)
              [0 := \<lparr>address = 0, msize = 100, mline = 8, mfile = ''main.c''\<rparr>],
      total_allocated_size = 100, total_free_size = 100,
      warnings = replicate 1000 zero_Warning, warning_count = 0\<rparr>"
  let ?d3 = "\<lparr>mem = (replicate 1000 zero_Mem)
              [0 := \<lparr>address = 0, msize = 100, mline = 8, mfile = ''main.c''\<rparr>],
      total_allocated_size = 100, total_free_size = 100,
      warnings = (replicate 1000 zero_Warning)
              [0 := \<lparr>message = ''Double free detected'', wline = 9, wfile = ''main.c''\<rparr>],
      warning_count = 1\<rparr>"
  have d0: "MEMD_Data_init = ?d0"
    by (simp add: MEMD_Data_init_def MEMD_MAX_ALLOCATIONS_def MEMD_MAX_WARNINGS_def)
  have f0: "find_by_address ?d0 0 = Some 0"
    by (simp add: find_by_address_Some_iff MEMD_MAX_ALLOCATIONS_def zero_Mem_def)
  have i1: "insert_alloc p 100 8 ''main.c'' ?d0 = ?d1"
    using assms f0 by (simp add: insert_alloc_def)
  have f1: "find_by_address ?d1 p = Some 0"
    by (simp add: find_by_address_Some_iff MEMD_MAX_ALLOCATIONS_def)
  have e1: "erase_alloc p ln fl ?d1 = (0, ?d2)"
    using assms f1 by (simp add: erase_alloc_def)
  have f2: "find_by_address ?d2 p = None"
    using assms
    by (auto simp: find_by_address_None_iff MEMD_MAX_ALLOCATIONS_def nth_list_update zero_Mem_def)
  have e2: "erase_alloc p 9 ''main.c'' ?d2 = (- 1, ?d3)"
    using assms f2 by (simp add: erase_alloc_def WARN_def MEMD_MAX_WARNINGS_def)
  show ?thesis
    by (simp add: run_def memd_malloc_def memd_data_free init_state_def Let_def d0 i1 e1 e2)
qed

lemma memd_report_result:
  assumes "wf_Data d" and "avail 10240"
  shows "(\<exists>pre. memd_report avail d = Some (Some (report_text d), Report_malloc 10240 # pre) \<and>
            list_all (granted_call avail) pre) \<or>
         (\<exists>pre bs. memd_report avail d
                  = Some (None, Report_malloc 10240 # pre @ [Report_realloc bs, Report_free]) \<and>
               \<not> avail bs \<and> list_all (granted_call avail) pre)"
proof -
  let ?b0 = "\<lparr>report = [], buffer_size = 10240, offset = 0,
              report_calls = [Report_malloc 10240]\<rparr>"
  have ok: "buf_ok ?b0" by (simp add: buf_ok_def)
  note m = memd_report_append_all [where avail = avail and d = d, OF assms]
  from append_all_result [OF ok, of avail "report_fragments d"]
  show ?thesis
  proof (elim disjE exE conjE)
    fix b' pre
    assume "append_all avail (report_fragments d) ?b0 = Some (Inr b')"
      "report b' = report ?b0 @ concat (report_fragments d)"
      "report_calls b' = report_calls ?b0 @ pre" "list_all (granted_call avail) pre"
    then have "memd_report avail d = Some (Some (report_text d), Report_malloc 10240 # pre) \<and>
        list_all (granted_call avail) pre"
      using m concat_report_fragments [OF assms(1)] by simp
    then show ?thesis by blast
  next
    fix pre bs
    assume "append_all avail (report_fragments d) ?b0
        = Some (Inl (report_calls ?b0 @ pre @ [Report_realloc bs, Report_free]))"
      "\<not> avail bs" "list_all (granted_call avail) pre"
    then have "memd_report avail d
        = Some (None, Report_malloc 10240 # pre @ [Report_realloc bs, Report_free]) \<and>
        \<not> avail bs \<and> list_all (granted_call avail) pre"
      using m by simp
    then show ?thesis by blast
  qed
qed

lemma memd_report_no_buffer:
  "\<not> avail 10240 \<Longrightarrow> memd_report avail d = Some (None, [Report_malloc 10240])"
  by (simp add: memd_report_def)

text \<open>
  C8. Whenever \<^verbatim>\<open>memd_report\<close> returns a text, the text is \<open>report_text\<close>: header, the
  three totals, the Detailed Report section exactly when the leaked bytes
  (\<^verbatim>\<open>total_allocated_size - total_free_size\<close>) are not 0, with one line per tracked record
  in slot order, the Warnings section exactly when a warning has been recorded, with one
  line per warning in recording order, and the footer; and when the real allocator grants
  every request it does return that text. After allocating 100 bytes at main.c:8,
  releasing the block and releasing it again at main.c:9, the report shows 100 bytes
  allocated, 100 freed, 0 leaked, no Detailed Report section and the single warning
  ``main.c:9: Double free detected''.
\<close>

theorem report_sections:
  assumes "wf_Data d"
  shows
    "(memd_report avail d = Some (Some txt, calls) \<longrightarrow> txt = report_text d) \<and>
     ((\<forall>n. avail n) \<longrightarrow> (\<exists>calls. memd_report avail d = Some (Some (report_text d), calls))) \<and>
     (p \<noteq> 0 \<longrightarrow>
        map_option fst (memd_report (\<lambda>n. True) (memd_data (run init_state
           [Malloc p 100 8 ''main.c'', Free p ln fl, Free p 9 ''main.c''])))
        = Some (Some
            ''\<newline>----------------------------------\<newline>MEMD Leak Summary:\<newline>----------------------------------\<newline>\<newline>   Total Memory allocated 100 bytes\<newline>   Total Memory freed     100 bytes\<newline>   Memory Leaked          0 bytes\<newline>\<newline>   Warnings:\<newline>    - main.c:9: Double free detected\<newline>\<newline>----------------------------------\<newline>\<newline>''))"
proof -
  have A: "txt = report_text d" if r: "memd_report avail d = Some (Some txt, calls)"
  proof (cases "avail 10240")
    case False
    from memd_report_no_buffer [where avail = avail and d = d, OF this] r show ?thesis by simp
  next
    case True
    from memd_report_result [where avail = avail, OF assms True] r show ?thesis by auto
  qed
  have B: "\<exists>calls. memd_report avail d = Some (Some (report_text d), calls)" if "\<forall>n. avail n"
  proof -
    from that have "avail 10240" by blast
    from memd_report_result [where avail = avail, OF assms this] that show ?thesis by blast
  qed
  have C: "map_option fst (memd_report (\<lambda>n. True) (memd_data (run init_state
           [Malloc p 100 8 ''main.c'', Free p ln fl, Free p 9 ''main.c''])))
        = Some (Some
            ''\<newline>----------------------------------\<newline>MEMD Leak Summary:\<newline>----------------------------------\<newline>\<newline>   Total Memory allocated 100 bytes\<newline>   Total Memory freed     100 bytes\<newline>   Memory Leaked          0 bytes\<newline>\<newline>   Warnings:\<newline>    - main.c:9: Double free detected\<newline>\<newline>----------------------------------\<newline>\<newline>'')"
    if "p \<noteq> 0"
  proof -
    let ?d = "memd_data (run init_state
           [Malloc p 100 8 ''main.c'', Free p ln fl, Free p 9 ''main.c''])"
    note d = scenario_A_data [OF that, of ln fl]
    have wf: "wf_Data ?d"
      unfolding d by (simp add: wf_Data_def MEMD_MAX_ALLOCATIONS_def MEMD_MAX_WARNINGS_def)
    have shown: "report_text ?d =
        ''\<newline>----------------------------------\<newline>MEMD Leak Summary:\<newline>----------------------------------\<newline>\<newline>   Total Memory allocated 100 bytes\<newline>   Total Memory freed     100 bytes\<newline>   Memory Leaked          0 bytes\<newline>\<newline>   Warnings:\<newline>    - main.c:9: Double free detected\<newline>\<newline>----------------------------------\<newline>\<newline>''"
      unfolding d
      by (simp add: report_text_def recorded_warnings_def take_Suc_conv_app_nth
          frag_header1_def frag_header2_def frag_header3_def rule_line_def frag_allocated_def
          frag_freed_def frag_leaked_def frag_warnings_def frag_warning_def frag_footer_def
          fmt_lu_def fmt_d_def dec_int_def dec_nat.simps digit_char_def)
    have "(\<lambda>n::nat. True) 10240" by simp
    from memd_report_result [where avail = "\<lambda>n. True", OF wf this] show ?thesis
      unfolding shown by auto
  qed
  from A B C show ?thesis by blast
qed

text \<open>Allocate 100 bytes at a.c:5 and 200 bytes at a.c:6, and release neither.\<close>

lemma scenario_B_data:
  assumes "p \<noteq> 0" and "q \<noteq> 0"
  shows "memd_data (run init_state [Malloc p 100 5 ''a.c'', Malloc q 200 6 ''a.c''])
   = \<lparr>mem = \<lparr>address = p, msize = 100, mline = 5, mfile = ''a.c''\<rparr>
            # \<lparr>address = q, msize = 200, mline = 6, mfile = ''a.c''\<rparr>
            # replicate 998 zero_Mem,
      total_allocated_size = 300, total_free_size = 0,
      warnings = replicate 1000 zero_Warning, warning_count = 0\<rparr>"
proof -
  let ?r1 = "\<lparr>address = p, msize = 100, mline = 5, mfile = ''a.c''\<rparr>"
  let ?r2 = "\<lparr>address = q, msize = 200, mline = 6, mfile = ''a.c''\<rparr>"
  let ?d0 = "\<lparr>mem = zero_Mem # zero_Mem # replicate 998 zero_Mem,
      total_allocated_size = 0, total_free_size = 0,
      warnings = replicate 1000 zero_Warning, warning_count = 0\<rparr>"
  let ?d1 = "\<lparr>mem = ?r1 # zero_Mem # replicate 998 zero_Mem,
      total_allocated_size = 100, total_free_size = 0,
      warnings = replicate 1000 zero_Warning, warning_count = 0\<rparr>"
  let ?d2 = "\<lparr>mem = ?r1 # ?r2 # replicate 998 zero_Mem,
      total_allocated_size = 300, total_free_size = 0,
      warnings = replicate 1000 zero_Warning, warning_count = 0\<rparr>"
  have "(1000::nat) = Suc (Suc 998)" by simp
  then have "replicate 1000 zero_Mem = zero_Mem # zero_Mem # replicate 998 zero_Mem"
    by (simp only: replicate_Suc)
  then have d0: "MEMD_Data_init = ?d0"
    by (simp add: MEMD_Data_init_def MEMD_MAX_ALLOCATIONS_def MEMD_MAX_WARNINGS_def)
  have f0: "find_by_address ?d0 0 = Some 0"
    by (simp add: find_by_address_Some_iff MEMD_MAX_ALLOCATIONS_def zero_Mem_def)
  have i1: "insert_alloc p 100 5 ''a.c'' ?d0 = ?d1"
    using assms f0 by (simp add: insert_alloc_def)
  have f1: "find_by_address ?d1 0 = Some 1"
    using assms by (simp add: find_by_address_Some_iff MEMD_MAX_ALLOCATIONS_def zero_Mem_def)
  have i2: "insert_alloc q 200 6 ''a.c'' ?d1 = ?d2"
    using assms f1 by (simp add: insert_alloc_def)
  show ?thesis
    by (simp add: run_def memd_malloc_def init_state_def Let_def d0 i1 i2)
qed

theorem report_sections_witness:
  "wf_Data (memd_data (run init_state [Malloc 4096 100 5 ''a.c'', Malloc 8192 200 6 ''a.c''])) \<and>
   (\<forall>n. (\<lambda>n::nat. True) n) \<and>
   map_option fst (memd_report (\<lambda>n. True)
      (memd_data (run init_state [Malloc 4096 100 5 ''a.c'', Malloc 8192 200 6 ''a.c''])))
   = Some (Some
       ''\<newline>----------------------------------\<newline>MEMD Leak Summary:\<newline>----------------------------------\<newline>\<newline>   Total Memory allocated 300 bytes\<newline>   Total Memory freed     0 bytes\<newline>   Memory Leaked          300 bytes\<newline>\<newline>   Detailed Report:\<newline>     Memory leak at a.c:5: (100 bytes)\<newline>     Memory leak at a.c:6: (200 bytes)\<newline>\<newline>----------------------------------\<newline>\<newline>'')"
proof -
  let ?d = "memd_data (run init_state [Malloc 4096 100 5 ''a.c'', Malloc 8192 200 6 ''a.c''])"
  have nz: "(4096 :: size_t) \<noteq> 0" "(8192 :: size_t) \<noteq> 0" by simp_all
  note d = scenario_B_data [OF nz]
  have wf: "wf_Data ?d"
    unfolding d by (simp add: wf_Data_def MEMD_MAX_ALLOCATIONS_def MEMD_MAX_WARNINGS_def)
  have shown: "report_text ?d =
       ''\<newline>----------------------------------\<newline>MEMD Leak Summary:\<newline>----------------------------------\<newline>\<newline>   Total Memory allocated 300 bytes\<newline>   Total Memory freed     0 bytes\<newline>   Memory Leaked          300 bytes\<newline>\<newline>   Detailed Report:\<newline>     Memory leak at a.c:5: (100 bytes)\<newline>     Memory leak at a.c:6: (200 bytes)\<newline>\<newline>----------------------------------\<newline>\<newline>''"
    unfolding d
    by (simp add: report_text_def recorded_warnings_def live_records_def zero_Mem_def
          frag_header1_def frag_header2_def frag_header3_def rule_line_def frag_allocated_def
          frag_freed_def frag_leaked_def frag_detailed_def frag_leak_def frag_footer_def
          fmt_lu_def fmt_d_def dec_int_def dec_nat.simps digit_char_def)
  have all: "\<forall>n. (\<lambda>n::nat. True) n" by simp
  from report_sections [where avail = "\<lambda>n. True" and d = ?d, OF wf] all
  obtain calls where "memd_report (\<lambda>n. True) ?d = Some (Some (report_text ?d), calls)"
    by blast
  with wf all show ?thesis
    unfolding shown by simp
qed

section \<open>Growth and failure of the report buffer\<close>

text \<open>
  C9. One \<^verbatim>\<open>APPEND_TO_REPORT\<close> on a buffer in order: when the fragment and its NUL fit
  (\<^verbatim>\<open>offset + needed < buffer_size\<close>) the fragment is appended and nothing is reallocated;
  otherwise the capacity is doubled \<open>k\<close> times, \<open>k\<close> the least number of doublings after
  which they fit, and the real \<^verbatim>\<open>realloc\<close> is asked for that capacity: if it is granted
  the fragment is appended, if it is refused the buffer is freed and \<^verbatim>\<open>memd_report\<close>
  returns \<^verbatim>\<open>NULL\<close>. For \<^verbatim>\<open>memd_report\<close> as a whole: if the initial \<^verbatim>\<open>malloc\<close> of 10240
  bytes is refused it returns \<^verbatim>\<open>NULL\<close> having allocated nothing; otherwise it returns
  either the text, every reallocation having been granted, or \<^verbatim>\<open>NULL\<close>, and then its last
  two calls to the allocator are a refused \<^verbatim>\<open>realloc\<close> and the \<^verbatim>\<open>free\<close> of the buffer.
\<close>

theorem report_buffer_growth:
  assumes "buf_ok b" and "wf_Data d"
  shows
    "(offset b + length frag < buffer_size b \<longrightarrow>
        APPEND_TO_REPORT avail frag b =
          Some (Inr (b\<lparr>report := report b @ frag, offset := offset b + length frag\<rparr>))) \<and>
     (buffer_size b \<le> offset b + length frag \<longrightarrow>
        (\<exists>k. 0 < k \<and> offset b + length frag < buffer_size b * 2 ^ k \<and>
             (\<forall>j. j < k \<longrightarrow> buffer_size b * 2 ^ j \<le> offset b + length frag) \<and>
             APPEND_TO_REPORT avail frag b =
               (if avail (buffer_size b * 2 ^ k)
                then Some (Inr (b\<lparr>report := report b @ frag,
                                 offset := offset b + length frag,
                                 buffer_size := buffer_size b * 2 ^ k,
                                 report_calls := report_calls b
                                    @ [Report_realloc (buffer_size b * 2 ^ k)]\<rparr>))
                else Some (Inl (report_calls b
                                  @ [Report_realloc (buffer_size b * 2 ^ k), Report_free]))))) \<and>
     (\<not> avail 10240 \<longrightarrow> memd_report avail d = Some (None, [Report_malloc 10240])) \<and>
     (avail 10240 \<longrightarrow>
        (\<exists>pre. memd_report avail d = Some (Some (report_text d), Report_malloc 10240 # pre) \<and>
              list_all (granted_call avail) pre) \<or>
        (\<exists>pre bs. memd_report avail d
                  = Some (None, Report_malloc 10240 # pre @ [Report_realloc bs, Report_free]) \<and>
               \<not> avail bs \<and> list_all (granted_call avail) pre))"
proof -
  note A = APPEND_fits [where avail = avail and b = b and frag = frag, OF assms(1)]
  note B = APPEND_grows [where avail = avail and b = b and frag = frag, OF assms(1)]
  note C = memd_report_no_buffer [where avail = avail and d = d]
  note D = memd_report_result [where avail = avail and d = d, OF assms(2)]
  from A B C D show ?thesis by blast
qed

theorem report_buffer_growth_witness:
  "buf_ok \<lparr>report = [], buffer_size = 10, offset = 0, report_calls = []\<rparr> \<and>
   wf_Data MEMD_Data_init \<and>
   (10 :: nat) \<le> 0 + length (replicate 100 CHR ''a'') \<and>
   APPEND_TO_REPORT (\<lambda>n. n < 100) (replicate 100 CHR ''a'')
       \<lparr>report = [], buffer_size = 10, offset = 0, report_calls = []\<rparr>
     = Some (Inl [Report_realloc 160, Report_free]) \<and>
   APPEND_TO_REPORT (\<lambda>n. n < 100) (replicate 5 CHR ''a'')
       \<lparr>report = [], buffer_size = 10, offset = 0, report_calls = []\<rparr>
     = Some (Inr \<lparr>report = ''aaaaa'', buffer_size = 10, offset = 5, report_calls = []\<rparr>) \<and>
   memd_report (\<lambda>n. n < 100) MEMD_Data_init = Some (None, [Report_malloc 10240]) \<and>
   (\<exists>pre. memd_report (\<lambda>n. True) MEMD_Data_init
            = Some (Some (report_text MEMD_Data_init), Report_malloc 10240 # pre))"
proof -
  let ?b = "\<lparr>report = [], buffer_size = 10, offset = 0, report_calls = []\<rparr>"
  have ok: "buf_ok ?b" by (simp add: buf_ok_def)
  note t = report_buffer_growth [where avail = "\<lambda>n. n < 100" and b = ?b and d = MEMD_Data_init,
      OF ok wf_Data_init]
  have big: "(10 :: nat) \<le> 0 + length (replicate 100 CHR ''a'')" by simp
  from t [of "replicate 100 CHR ''a''"] big
  obtain k where k: "0 + length (replicate 100 CHR ''a'') < buffer_size ?b * 2 ^ k"
    "\<forall>j. j < k \<longrightarrow> buffer_size ?b * 2 ^ j \<le> 0 + length (replicate 100 CHR ''a'')"
    and r: "APPEND_TO_REPORT (\<lambda>n. n < 100) (replicate 100 CHR ''a'') ?b =
      (if buffer_size ?b * 2 ^ k < 100
       then Some (Inr (?b\<lparr>report := report ?b @ replicate 100 CHR ''a'',
                         offset := offset ?b + length (replicate 100 CHR ''a''),
                         buffer_size := buffer_size ?b * 2 ^ k,
                         report_calls := report_calls ?b @ [Report_realloc (buffer_size ?b * 2 ^ k)]\<rparr>))
       else Some (Inl (report_calls ?b @ [Report_realloc (buffer_size ?b * 2 ^ k), Report_free])))"
    by auto
  have "\<not> k < 4"
  proof
    assume "k < 4"
    then have "k \<le> 3" by simp
    then have "(2::nat) ^ k \<le> 2 ^ 3" by (intro power_increasing) simp_all
    with k(1) show False by simp
  qed
  moreover have "\<not> 4 < k"
  proof
    assume "4 < k"
    with k(2) have "buffer_size ?b * 2 ^ 4 \<le> 0 + length (replicate 100 CHR ''a'')" by blast
    then show False by simp
  qed
  ultimately have "k = 4" by simp
  with r have first: "APPEND_TO_REPORT (\<lambda>n. n < 100) (replicate 100 CHR ''a'') ?b
     = Some (Inl [Report_realloc 160, Report_free])"
    by simp
  from t [of "replicate 5 CHR ''a''"]
  have second: "APPEND_TO_REPORT (\<lambda>n. n < 100) (replicate 5 CHR ''a'') ?b
     = Some (Inr \<lparr>report = ''aaaaa'', buffer_size = 10, offset = 5, report_calls = []\<rparr>)"
    by (simp add: numeral_eq_Suc)
  from t [of "[]"]
  have third: "memd_report (\<lambda>n. n < 100) MEMD_Data_init = Some (None, [Report_malloc 10240])"
    by simp
  from report_buffer_growth [where avail = "\<lambda>n. True" and b = ?b and d = MEMD_Data_init
      and frag = "[]", OF ok wf_Data_init]
  have fourth: "\<exists>pre. memd_report (\<lambda>n. True) MEMD_Data_init
            = Some (Some (report_text MEMD_Data_init), Report_malloc 10240 # pre)"
    by auto
  from ok wf_Data_init big first second third fourth show ?thesis by blast
qed

end
